theory Spec2Isabelle
  imports Complex_Main
begin

section \<open>Numbers, errors and geometry\<close>

text \<open>
  JavaScript numbers are idealised as reals: rounding is not modelled. The two operations
  of the sources whose result on real arguments is not a finite number are written out:
  a division by zero (\<open>Infinity\<close> or \<open>NaN\<close>) and \<open>Math.sqrt\<close> of a negative number
  (\<open>NaN\<close>) yield \<open>None\<close>.

  The model is that of a run with assertions enabled. An \<open>assert && assert( ... )\<close> on
  the values of the arguments or of the state is a branch of the model
  (\<open>AssertionFailed\<close>); the assertions on the types of the arguments hold by typing. The
  validation that an AXON Property performs for its \<open>range\<close> and \<open>isValidValue\<close>
  options is a branch too (\<open>InvalidValue\<close>). The use of an array element that is
  \<open>undefined\<close> stops with \<open>TypeError\<close>.

  A speed that is not a finite number is stored all the same, when particles are added
  and when the temperature is set: the particle system records the particles whose
  velocity is not finite, and reading the kinetic energy of such a particle gives no
  number. The pressure gauge stops with \<open>NotFinite\<close> where it would display a number
  that is not finite.
\<close>

datatype error = AssertionFailed | InvalidValue | NotFinite | TypeError

definition js_div :: "real \<Rightarrow> real \<Rightarrow> real option" where
  "js_div a b = (if b = 0 then None else Some (a / b))"

definition js_sqrt :: "real \<Rightarrow> real option" where
  "js_sqrt a = (if a < 0 then None else Some (sqrt a))"

text \<open>\<open>DOT/Vector2\<close> and \<open>DOT/Bounds2\<close> (library types used by the sources).\<close>

record vector2 =
  getX :: real
  getY :: real

definition magnitudeSquared :: "vector2 \<Rightarrow> real" where
  "magnitudeSquared v = getX v * getX v + getY v * getY v"

definition magnitude :: "vector2 \<Rightarrow> real" where
  "magnitude v = sqrt (magnitudeSquared v)"

text \<open>\<open>Math.atan2( y, x )\<close>, the angle of a vector; \<open>Math.atan2( 0, 0 )\<close> is 0.\<close>

definition atan2 :: "real \<Rightarrow> real \<Rightarrow> real" where
  "atan2 b a =
     (if 0 < a then arctan (b / a)
      else if a < 0 \<and> 0 \<le> b then arctan (b / a) + pi
      else if a < 0 then arctan (b / a) - pi
      else if 0 < b then pi / 2
      else if b < 0 then - pi / 2
      else 0)"

definition angle :: "vector2 \<Rightarrow> real" where
  "angle v = atan2 (getY v) (getX v)"

record bounds2 =
  minX :: real
  minY :: real
  maxX :: real
  maxY :: real

definition containsPoint :: "bounds2 \<Rightarrow> vector2 \<Rightarrow> bool" where
  "containsPoint b p \<longleftrightarrow>
     minX b \<le> getX p \<and> getX p \<le> maxX b \<and> minY b \<le> getY p \<and> getY p \<le> maxY b"

section \<open>Constants (GasPropertiesConstants)\<close>

definition BOLTZMANN :: real where
  "BOLTZMANN = 8316"

definition LIGHT_PARTICLES_RADIUS :: real where
  "LIGHT_PARTICLES_RADIUS = 87.5"

definition PARTICLE_DISPERSION_ANGLE :: real where
  "PARTICLE_DISPERSION_ANGLE = pi / 2"

section \<open>Particles\<close>

text \<open>
  Modelled from the spec: \<open>common/model/Particle.js\<close> is not among the sources. Section 3
  of the specification gives the fields (mass, radius, position, velocity, previous
  position), section 4.1 the operations: the kinetic energy is half the mass times the
  squared speed, and the velocity is set by components or by magnitude and angle;
  \<open>setVelocityMagnitude\<close> sets the magnitude and keeps the angle.
  \<open>isDisposed\<close> records that \<open>dispose()\<close> has been called. The edges of the disc
  (\<open>left\<close>, \<open>right\<close>, \<open>top\<close>, \<open>bottom\<close>) are the centre plus or minus the radius.
\<close>

record particle =
  mass :: real
  radius :: real
  location :: vector2
  previousLocation :: vector2
  velocity :: vector2
  isDisposed :: bool

definition getKineticEnergy :: "particle \<Rightarrow> real" where
  "getKineticEnergy p = 0.5 * mass p * magnitudeSquared (velocity p)"

definition setLocationXY :: "real \<Rightarrow> real \<Rightarrow> particle \<Rightarrow> particle" where
  "setLocationXY a b p = p\<lparr>location := \<lparr>getX = a, getY = b\<rparr>\<rparr>"

definition setVelocityXY :: "real \<Rightarrow> real \<Rightarrow> particle \<Rightarrow> particle" where
  "setVelocityXY a b p = p\<lparr>velocity := \<lparr>getX = a, getY = b\<rparr>\<rparr>"

definition setVelocityPolar :: "real \<Rightarrow> real \<Rightarrow> particle \<Rightarrow> particle" where
  "setVelocityPolar m a p = setVelocityXY (m * cos a) (m * sin a) p"

definition setVelocityMagnitude :: "real \<Rightarrow> particle \<Rightarrow> particle" where
  "setVelocityMagnitude m p = setVelocityPolar m (angle (velocity p)) p"

definition dispose :: "particle \<Rightarrow> particle" where
  "dispose p = p\<lparr>isDisposed := True\<rparr>"

definition left :: "particle \<Rightarrow> real" where
  "left p = getX (location p) - radius p"

definition right :: "particle \<Rightarrow> real" where
  "right p = getX (location p) + radius p"

definition bottom :: "particle \<Rightarrow> real" where
  "bottom p = getY (location p) - radius p"

definition top' :: "particle \<Rightarrow> real" where
  "top' p = getY (location p) + radius p"

text \<open>
  The constructor of \<open>Particle\<close> with the options of \<open>LightParticle.js\<close>: a particle at
  the origin, at rest.
\<close>

definition newParticle :: "real \<Rightarrow> real \<Rightarrow> particle" where
  "newParticle m r =
     \<lparr>mass = m, radius = r, location = \<lparr>getX = 0, getY = 0\<rparr>,
      previousLocation = \<lparr>getX = 0, getY = 0\<rparr>, velocity = \<lparr>getX = 0, getY = 0\<rparr>,
      isDisposed = False\<rparr>"

definition LightParticle :: particle where
  "LightParticle = newParticle 4 LIGHT_PARTICLES_RADIUS"

section \<open>Particle objects and arrays of them\<close>

text \<open>
  Particles are objects: an array holds references, \<open>indexOf\<close> compares references, and
  a method call changes the object that every holder of the reference sees. The heap maps
  a reference to the object; \<open>nextRef\<close> is the next unused reference, taken by \<open>new\<close>.
\<close>

type_synonym ref = nat

type_synonym heap = "ref \<Rightarrow> particle"

text \<open>\<open>Array.prototype.indexOf\<close>: the first index of the element, or -1.\<close>

fun indexOf :: "'a list \<Rightarrow> 'a \<Rightarrow> int" where
  "indexOf [] a = - 1"
| "indexOf (b # bs) a =
     (if b = a then 0 else (let i = indexOf bs a in if i = - 1 then - 1 else i + 1))"

text \<open>
  \<open>array.splice( start, 1 )\<close>: a negative \<open>start\<close> counts from the end of the array, and
  one element is removed where there is one.
\<close>

definition splice1 :: "'a list \<Rightarrow> int \<Rightarrow> 'a list" where
  "splice1 bs start =
     (let len = int (length bs);
          s = (if start < 0 then max (len + start) 0 else min start len)
      in take (nat s) bs @ drop (nat s + 1) bs)"

text \<open>
  \<open>array.slice( start, end )\<close>, where a negative index counts from the end of the array.
\<close>

definition slice :: "'a list \<Rightarrow> int \<Rightarrow> int \<Rightarrow> 'a list" where
  "slice bs start end =
     (let len = int (length bs);
          s = (if start < 0 then max (len + start) 0 else min start len);
          e = (if end < 0 then max (len + end) 0 else min end len)
      in take (nat (e - s)) (drop (nat s) bs))"

section \<open>Removing particles (IdealModel.js)\<close>

text \<open>
  \<open>removeParticle( particle, particles )\<close> and \<open>removeParticles( n, particles )\<close> of
  \<open>IdealModel.js\<close>; \<open>ParticleUtils.removeParticles\<close>, which \<open>ParticleSystem.js\<close> calls,
  is not among the sources and is taken to be this function. The pair is the heap and
  the array.
\<close>

definition removeParticle :: "ref \<Rightarrow> heap \<times> ref list \<Rightarrow> error + heap \<times> ref list" where
  "removeParticle r = (\<lambda>(h, particles).
     (let index = indexOf particles r
      in if index = - 1 then Inl AssertionFailed
         else Inr (h(r := dispose (h r)), splice1 particles index)))"

fun removeLoop :: "ref list \<Rightarrow> heap \<times> ref list \<Rightarrow> error + heap \<times> ref list" where
  "removeLoop [] s = Inr s"
| "removeLoop (r # rs) s =
     (case removeParticle r s of Inl e \<Rightarrow> Inl e | Inr s' \<Rightarrow> removeLoop rs s')"

definition removeParticles :: "int \<Rightarrow> heap \<times> ref list \<Rightarrow> error + heap \<times> ref list" where
  "removeParticles n = (\<lambda>(h, particles).
     if \<not> n \<le> int (length particles) then Inl AssertionFailed
     else (let particlesToRemove =
                 slice particles (int (length particles) - n) (int (length particles))
           in removeLoop particlesToRemove (h, particles)))"

section \<open>Gaussian values (GasPropertiesUtils.getGaussianValues)\<close>

text \<open>
  \<open>Util.boxMullerTransform( mean, deviation, random )\<close> of the DOT library returns
  \<open>z * deviation + mean\<close> for a standard normal deviate \<open>z\<close> that it computes from the
  random source. The deviates are an argument of the model: \<open>z i\<close> is the deviate of
  the call with index \<open>i\<close>.
\<close>

definition boxMullerTransform :: "real \<Rightarrow> real \<Rightarrow> real \<Rightarrow> real" where
  "boxMullerTransform mu sigma z0 = z0 * sigma + mu"

text \<open>The first loop: \<open>values.push( speed ); sum += speed\<close> for \<open>i < n\<close>.\<close>

primrec generateValues ::
  "(nat \<Rightarrow> real) \<Rightarrow> real \<Rightarrow> real \<Rightarrow> nat \<Rightarrow> nat \<Rightarrow> real list \<times> real \<Rightarrow> real list \<times> real" where
  "generateValues z mean deviation 0 i s = s"
| "generateValues z mean deviation (Suc k) i s =
     (let speed = boxMullerTransform mean deviation (z i)
      in generateValues z mean deviation k (Suc i) (fst s @ [speed], snd s + speed))"

text \<open>The second loop: \<open>values[ i ] = values[ i ] + deltaMean; sum += speed\<close>.\<close>

primrec adjustValues :: "real \<Rightarrow> nat \<Rightarrow> nat \<Rightarrow> real list \<times> real \<Rightarrow> real list \<times> real" where
  "adjustValues deltaMean 0 i s = s"
| "adjustValues deltaMean (Suc k) i s =
     (let speed = fst s ! i + deltaMean
      in adjustValues deltaMean k (Suc i) ((fst s)[i := speed], snd s + speed))"

definition getGaussianValues ::
  "(nat \<Rightarrow> real) \<Rightarrow> int \<Rightarrow> real \<Rightarrow> real \<Rightarrow> real \<Rightarrow> error + real list" where
  "getGaussianValues z n mean deviation threshold =
     (if \<not> 0 < n then Inl AssertionFailed
      else if \<not> 0 \<le> threshold then Inl AssertionFailed
      else
        (let generated = generateValues z mean deviation (nat n) 0 ([], 0)
         in if length (fst generated) \<noteq> nat n then Inl AssertionFailed
            else
              (let emergentMean = snd generated / real_of_int n;
                   deltaMean = mean - emergentMean;
                   adjusted = adjustValues deltaMean (length (fst generated)) 0 (fst generated, 0);
                   actualMean = snd adjusted / real_of_int n
               in if \<not> \<bar>actualMean - mean\<bar> < threshold then Inl AssertionFailed
                  else Inr (fst adjusted))))"

section \<open>The particle system (ParticleSystem.js)\<close>

text \<open>
  The fields of \<open>ParticleSystem\<close>. \<open>getInitialTemperature\<close> is the value that the
  callback of that name returns, \<open>collisionsEnabledProperty\<close> the value of the Property.
  \<open>velocityNotANumber\<close> holds the particles whose velocity is not a finite number
  (\<open>NaN\<close> after the square root of a negative number): the velocity that the heap
  holds for such a particle has no meaning.
\<close>

record particleSystem =
  objects :: heap
  nextRef :: ref
  getInitialTemperature :: real
  collisionsEnabledProperty :: bool
  particleEntryLocation :: vector2
  heavyParticles :: "ref list"
  lightParticles :: "ref list"
  heavyParticlesOutside :: "ref list"
  lightParticlesOutside :: "ref list"
  velocityNotANumber :: "ref set"

text \<open>
  The array argument \<open>particles\<close> of \<open>updateNumberOfParticles\<close> and \<open>addParticles\<close> is
  one of the two arrays of particles inside the container.
\<close>

datatype particleArray = HeavyParticles | LightParticles

fun getArray :: "particleArray \<Rightarrow> particleSystem \<Rightarrow> ref list" where
  "getArray HeavyParticles ps = heavyParticles ps"
| "getArray LightParticles ps = lightParticles ps"

fun setArray :: "particleArray \<Rightarrow> ref list \<Rightarrow> particleSystem \<Rightarrow> particleSystem" where
  "setArray HeavyParticles a ps = ps\<lparr>heavyParticles := a\<rparr>"
| "setArray LightParticles a ps = ps\<lparr>lightParticles := a\<rparr>"

text \<open>
  The loop of \<open>addParticles\<close> that creates the particles. \<open>createParticle\<close> is the object
  that the constructor call builds, \<open>u i\<close> the value of the call of
  \<open>phet.joist.random.nextDouble()\<close> in iteration \<open>i\<close>. \<open>Math.sqrt( 3 k T / m )\<close> is
  \<open>NaN\<close> for a negative quotient and not finite for a mass of zero: the velocity that
  \<open>setVelocityPolar\<close> stores is then not finite either, and the particle is pushed like
  any other.
\<close>

primrec createParticles ::
  "(nat \<Rightarrow> real) \<Rightarrow> real list \<Rightarrow> particleArray \<Rightarrow> particle \<Rightarrow> nat \<Rightarrow> nat \<Rightarrow> particleSystem
     \<Rightarrow> error + particleSystem" where
  "createParticles u temperatures arr createParticle 0 i ps = Inr ps"
| "createParticles u temperatures arr createParticle (Suc k) i ps =
     (if \<not> i < length temperatures then Inl AssertionFailed
      else
        (let particle = createParticle;
             particle = setLocationXY (getX (particleEntryLocation ps) - radius particle)
                          (getY (particleEntryLocation ps)) particle;
             speed = Option.bind (js_div (3 * BOLTZMANN * temperatures ! i) (mass particle)) js_sqrt;
             direction = pi - PARTICLE_DISPERSION_ANGLE / 2 + u i * PARTICLE_DISPERSION_ANGLE;
             r = nextRef ps;
             ps = (case speed of
                     Some v \<Rightarrow>
                       ps\<lparr>objects := (objects ps)(r := setVelocityPolar v direction particle),
                          nextRef := Suc r,
                          velocityNotANumber := velocityNotANumber ps - {r}\<rparr>
                   | None \<Rightarrow>
                       ps\<lparr>objects := (objects ps)(r := particle),
                          nextRef := Suc r,
                          velocityNotANumber := insert r (velocityNotANumber ps)\<rparr>)
         in createParticles u temperatures arr createParticle k (Suc i)
              (setArray arr (getArray arr ps @ [r]) ps)))"

definition addParticles ::
  "(nat \<Rightarrow> real) \<Rightarrow> (nat \<Rightarrow> real) \<Rightarrow> int \<Rightarrow> particleArray \<Rightarrow> particle \<Rightarrow> particleSystem
     \<Rightarrow> error + particleSystem" where
  "addParticles z u n arr createParticle ps =
     (if \<not> 0 < n then Inl AssertionFailed
      else
        (let initialTemperature = getInitialTemperature ps
         in case (if n \<noteq> 1 \<and> collisionsEnabledProperty ps
                  then getGaussianValues z n initialTemperature (0.2 * initialTemperature) (1 / 1000)
                  else Inr (replicate (nat n) initialTemperature)) of
              Inl e \<Rightarrow> Inl e
            | Inr temperatures \<Rightarrow> createParticles u temperatures arr createParticle (nat n) 0 ps))"

text \<open>
  \<open>oldValue\<close> is \<open>null\<close> in the first call of a listener; \<open>newValue - null\<close> is \<open>newValue\<close>.
\<close>

definition updateNumberOfParticles ::
  "(nat \<Rightarrow> real) \<Rightarrow> (nat \<Rightarrow> real) \<Rightarrow> int \<Rightarrow> int option \<Rightarrow> particleArray \<Rightarrow> particle
     \<Rightarrow> particleSystem \<Rightarrow> error + particleSystem" where
  "updateNumberOfParticles z u newValue oldValue arr createParticle ps =
     (if int (length (getArray arr ps)) \<noteq> newValue then
        (let delta = newValue - (case oldValue of None \<Rightarrow> 0 | Some v \<Rightarrow> v)
         in case (if 0 < delta then addParticles z u delta arr createParticle ps
                  else if delta < 0 then
                    (case removeParticles (- delta) (objects ps, getArray arr ps) of
                       Inl e \<Rightarrow> Inl e
                     | Inr s \<Rightarrow> Inr (setArray arr (snd s) (ps\<lparr>objects := fst s\<rparr>)))
                  else Inr ps) of
              Inl e \<Rightarrow> Inl e
            | Inr ps' \<Rightarrow>
                if int (length (getArray arr ps')) \<noteq> newValue then Inl AssertionFailed
                else Inr ps')
      else Inr ps)"

text \<open>
  Modelled from the spec: \<open>ParticleUtils.getTotalKineticEnergy( particles )\<close> is not
  among the sources. Section 4.7 takes the average of the kinetic energy over the
  particles: the total of an array is the sum of \<open>getKineticEnergy()\<close> over it, which
  is not a number as soon as the velocity of one of the particles is not.
\<close>

definition kineticEnergyOf :: "heap \<Rightarrow> ref set \<Rightarrow> ref \<Rightarrow> real option" where
  "kineticEnergyOf h nan r = (if r \<in> nan then None else Some (getKineticEnergy (h r)))"

definition totalKineticEnergyOf :: "heap \<Rightarrow> ref set \<Rightarrow> ref list \<Rightarrow> real option" where
  "totalKineticEnergyOf h nan particles =
     foldl (\<lambda>total r. Option.bind total (\<lambda>t. map_option (\<lambda>ke. t + ke) (kineticEnergyOf h nan r)))
       (Some 0) particles"

definition getTotalKineticEnergy :: "particleSystem \<Rightarrow> real option" where
  "getTotalKineticEnergy ps =
     Option.bind (totalKineticEnergyOf (objects ps) (velocityNotANumber ps) (heavyParticles ps))
       (\<lambda>heavy. map_option (\<lambda>light. heavy + light)
          (totalKineticEnergyOf (objects ps) (velocityNotANumber ps) (lightParticles ps)))"

definition numberOfParticlesProperty :: "particleSystem \<Rightarrow> int" where
  "numberOfParticlesProperty ps = int (length (heavyParticles ps)) + int (length (lightParticles ps))"

definition getAverageKineticEnergy :: "particleSystem \<Rightarrow> real option" where
  "getAverageKineticEnergy ps =
     Option.bind (getTotalKineticEnergy ps)
       (\<lambda>total. js_div total (real_of_int (numberOfParticlesProperty ps)))"

definition insideParticleArrays :: "particleSystem \<Rightarrow> ref list list" where
  "insideParticleArrays ps = [heavyParticles ps, lightParticles ps]"

text \<open>
  The inner loop of \<open>setTemperature\<close>, over one array; \<open>ratio\<close> is \<open>None\<close> when it is
  not finite. The state is the heap together with the particles whose velocity is not a
  finite number: a desired speed that is not finite is given to the particle like any
  other, and the loop goes on.
\<close>

fun scaleParticles :: "real option \<Rightarrow> ref list \<Rightarrow> heap \<times> ref set \<Rightarrow> heap \<times> ref set" where
  "scaleParticles ratio [] s = s"
| "scaleParticles ratio (r # rs) s =
     (let h = fst s;
          nan = snd s;
          particle = h r;
          actualParticleKE = kineticEnergyOf h nan r;
          desiredParticleKE = Option.bind ratio (\<lambda>q. map_option (\<lambda>ke. q * ke) actualParticleKE);
          desiredSpeed =
            Option.bind (Option.bind desiredParticleKE (\<lambda>ke. js_div (2 * ke) (mass particle))) js_sqrt
      in scaleParticles ratio rs
           (case desiredSpeed of
              Some v \<Rightarrow> (h(r := setVelocityMagnitude v particle), nan - {r})
            | None \<Rightarrow> (h, insert r nan)))"

text \<open>The outer loop of \<open>setTemperature\<close>, over \<open>insideParticleArrays\<close>.\<close>

fun scaleArrays :: "real option \<Rightarrow> ref list list \<Rightarrow> heap \<times> ref set \<Rightarrow> heap \<times> ref set" where
  "scaleArrays ratio [] s = s"
| "scaleArrays ratio (a # as) s = scaleArrays ratio as (scaleParticles ratio a s)"

definition setTemperature :: "real \<Rightarrow> particleSystem \<Rightarrow> particleSystem" where
  "setTemperature temperature ps =
     (let desiredAverageKE = (3 / 2) * temperature * BOLTZMANN;
          actualAverageKE = getAverageKineticEnergy ps;
          ratio = Option.bind actualAverageKE (js_div desiredAverageKE);
          s = scaleArrays ratio (insideParticleArrays ps) (objects ps, velocityNotANumber ps)
      in ps\<lparr>objects := fst s, velocityNotANumber := snd s\<rparr>)"

section \<open>Temperature (IdealModel.js, DiffusionData.js)\<close>

text \<open>
  The fields of \<open>IdealModel\<close> that \<open>updateTemperature\<close> uses: the arrays of particles
  inside the container and \<open>thermometer.temperatureKelvinProperty\<close>, whose value is a
  number or \<open>null\<close>.
\<close>

record idealModel =
  objects_im :: heap
  heavyParticles_im :: "ref list"
  lightParticles_im :: "ref list"
  temperatureKelvinProperty :: "real option"

text \<open>The loops \<open>averageKineticEnergy += particles[ i ].kineticEnergy\<close>.\<close>

definition addKineticEnergy :: "heap \<Rightarrow> ref list \<Rightarrow> real \<Rightarrow> real" where
  "addKineticEnergy h particles averageKineticEnergy =
     foldl (\<lambda>total r. total + getKineticEnergy (h r)) averageKineticEnergy particles"

definition updateTemperature :: "idealModel \<Rightarrow> idealModel" where
  "updateTemperature m =
     (let numberOfParticles = length (heavyParticles_im m) + length (lightParticles_im m)
      in if numberOfParticles = 0 then m\<lparr>temperatureKelvinProperty := None\<rparr>
         else
           (let averageKineticEnergy = 0;
                averageKineticEnergy =
                  addKineticEnergy (objects_im m) (heavyParticles_im m) averageKineticEnergy;
                averageKineticEnergy =
                  addKineticEnergy (objects_im m) (lightParticles_im m) averageKineticEnergy;
                averageKineticEnergy = averageKineticEnergy / real numberOfParticles
            in m\<lparr>temperatureKelvinProperty :=
                   Some ((2 / 3) * averageKineticEnergy / BOLTZMANN)\<rparr>))"

text \<open>
  \<open>DiffusionData\<close>, the data of one side of the container. The two arrays are shared
  with the model, the particles are read in the heap.
\<close>

record diffusionData =
  bounds :: bounds2
  particles1 :: "ref list"
  particles2 :: "ref list"
  numberOfParticles1Property :: nat
  numberOfParticles2Property :: nat
  averageTemperatureProperty :: "real option"

text \<open>
  One loop of \<open>update\<close>: the number of particles of the array inside the bounds, and
  their kinetic energy added to \<open>totalKE\<close>.
\<close>

fun countInside :: "heap \<Rightarrow> bounds2 \<Rightarrow> ref list \<Rightarrow> nat \<times> real \<Rightarrow> nat \<times> real" where
  "countInside h b [] s = s"
| "countInside h b (r # rs) s =
     (let particle = h r
      in if containsPoint b (location particle)
         then countInside h b rs (fst s + 1, snd s + getKineticEnergy particle)
         else countInside h b rs s)"

text \<open>
  \<open>averageTemperatureProperty\<close> accepts \<open>null\<close> and positive numbers
  (\<open>AVERAGE_TEMPERATURE_PROPERTY_OPTIONS\<close>).
\<close>

definition update :: "heap \<Rightarrow> diffusionData \<Rightarrow> error + diffusionData" where
  "update h d =
     (let s1 = countInside h (bounds d) (particles1 d) (0, 0);
          numberOfParticles1 = fst s1;
          s2 = countInside h (bounds d) (particles2 d) (0, snd s1);
          numberOfParticles2 = fst s2;
          totalKE = snd s2;
          d = d\<lparr>numberOfParticles1Property := numberOfParticles1,
                 numberOfParticles2Property := numberOfParticles2\<rparr>;
          totalNumberOfParticles = numberOfParticles1 + numberOfParticles2
      in if totalNumberOfParticles = 0 then Inr (d\<lparr>averageTemperatureProperty := None\<rparr>)
         else if \<not> totalKE \<noteq> 0 then Inl AssertionFailed
         else
           (let averageKE = totalKE / real totalNumberOfParticles;
                value = (2 / 3) * averageKE / BOLTZMANN
            in if \<not> 0 < value then Inl InvalidValue
               else Inr (d\<lparr>averageTemperatureProperty := Some value\<rparr>)))"

text \<open>
  For the statements about \<open>update\<close>: the particles of the two arrays whose centre is
  inside the bounds of this side.
\<close>

definition particlesInside :: "heap \<Rightarrow> diffusionData \<Rightarrow> ref list" where
  "particlesInside h d =
     filter (\<lambda>r. containsPoint (bounds d) (location (h r))) (particles1 d @ particles2 d)"

section \<open>The pressure gauge (PressureGauge.js)\<close>

datatype holdConstant = NOTHING | VOLUME | TEMPERATURE | PRESSURE_V | PRESSURE_T

datatype units = KILOPASCALS | ATMOSPHERES

text \<open>
  \<open>DOT/LinearFunction( a1, a2, b1, b2, clamp )\<close>: the line through \<open>(a1, b1)\<close> and
  \<open>(a2, b2)\<close>, its value clamped between \<open>b1\<close> and \<open>b2\<close> when \<open>clamp\<close> is set; not a
  number when \<open>a1 = a2\<close>.
\<close>

definition clamp :: "real \<Rightarrow> real \<Rightarrow> real \<Rightarrow> real" where
  "clamp v lo hi = (if v < lo then lo else if v > hi then hi else v)"

definition LinearFunction :: "real \<Rightarrow> real \<Rightarrow> real \<Rightarrow> real \<Rightarrow> bool \<Rightarrow> real \<Rightarrow> real option" where
  "LinearFunction a1 a2 b1 b2 clmp a3 =
     map_option (\<lambda>slope.
        (let b3 = slope * (a3 - a1) + b1
         in if clmp then clamp b3 (min b1 b2) (max b1 b2) else b3))
       (js_div (b2 - b1) (a2 - a1))"

definition MIN_NOISE :: real where
  "MIN_NOISE = 0"

definition MAX_NOISE :: real where
  "MAX_NOISE = 50"

definition REFRESH_PERIOD :: real where
  "REFRESH_PERIOD = 0.75"

text \<open>
  The gauge with the Properties it reads: \<open>pressureProperty\<close>, \<open>temperatureProperty\<close>
  (\<open>null\<close> for an empty container), \<open>holdConstantProperty\<close> and the global option
  \<open>pressureNoiseProperty\<close>. \<open>MAX_PRESSURE\<close> is the query parameter \<open>maxPressure\<close>,
  whose declaration is not among the sources.
\<close>

record pressureGauge =
  MAX_PRESSURE :: real
  pressureProperty :: real
  temperatureProperty :: "real option"
  holdConstantProperty :: holdConstant
  pressureNoiseProperty :: bool
  pressureKilopascalsProperty :: real
  unitsProperty :: units
  dtAccumulator :: real

definition pressureNoiseFunction :: "pressureGauge \<Rightarrow> real \<Rightarrow> real option" where
  "pressureNoiseFunction g = LinearFunction 0 (MAX_PRESSURE g) MAX_NOISE MIN_NOISE True"

definition scaleNoiseFunction :: "real \<Rightarrow> real option" where
  "scaleNoiseFunction = LinearFunction 5 50 0 1 True"

text \<open>A number or \<open>null\<close> in arithmetic: \<open>null\<close> is 0.\<close>

definition toNumber :: "real option \<Rightarrow> real" where
  "toNumber v = (case v of None \<Rightarrow> 0 | Some a \<Rightarrow> a)"

text \<open>
  \<open>pressureKilopascalsProperty\<close> accepts the values that are not negative
  (\<open>isValidValue\<close>).
\<close>

definition setPressureKilopascals :: "real \<Rightarrow> pressureGauge \<Rightarrow> error + pressureGauge" where
  "setPressureKilopascals v g =
     (if \<not> 0 \<le> v then Inl InvalidValue else Inr (g\<lparr>pressureKilopascalsProperty := v\<rparr>))"

text \<open>The listener linked to \<open>pressureProperty\<close>.\<close>

definition pressureListener :: "real \<Rightarrow> pressureGauge \<Rightarrow> error + pressureGauge" where
  "pressureListener pressure g =
     (if pressure = 0 then setPressureKilopascals 0 g else Inr g)"

text \<open>
  The constructor: \<open>pressureKilopascalsProperty\<close> starts at the pressure, and \<open>link\<close>
  calls the listener at once with the value of \<open>pressureProperty\<close>.
\<close>

definition newPressureGauge ::
  "real \<Rightarrow> real \<Rightarrow> real option \<Rightarrow> holdConstant \<Rightarrow> bool \<Rightarrow> error + pressureGauge" where
  "newPressureGauge maxPressure pressure temperature hold noiseOption =
     (if \<not> MIN_NOISE < MAX_NOISE then Inl AssertionFailed
      else
        (case setPressureKilopascals pressure
                \<lparr>MAX_PRESSURE = maxPressure, pressureProperty = pressure,
                 temperatureProperty = temperature, holdConstantProperty = hold,
                 pressureNoiseProperty = noiseOption, pressureKilopascalsProperty = pressure,
                 unitsProperty = ATMOSPHERES, dtAccumulator = 0\<rparr> of
           Inl e \<Rightarrow> Inl e
         | Inr g \<Rightarrow> pressureListener pressure g))"

text \<open>
  \<open>pressureProperty.value = pressure\<close>, done by the model: an AXON Property calls its
  listeners when the new value differs from the old one.
\<close>

definition setPressure :: "real \<Rightarrow> pressureGauge \<Rightarrow> error + pressureGauge" where
  "setPressure pressure g =
     (if pressure = pressureProperty g then Inr g
      else pressureListener pressure (g\<lparr>pressureProperty := pressure\<rparr>))"

text \<open>
  \<open>step( dt )\<close>. \<open>nextDouble\<close> and \<open>nextBoolean\<close> are the values that
  \<open>phet.joist.random\<close> returns when it is called.
\<close>

definition step :: "real \<Rightarrow> real \<Rightarrow> bool \<Rightarrow> pressureGauge \<Rightarrow> error + pressureGauge" where
  "step dt nextDouble nextBoolean g =
     (if \<not> 0 < dt then Inl AssertionFailed
      else
        (let g = g\<lparr>dtAccumulator := dtAccumulator g + dt\<rparr>
         in if dtAccumulator g \<ge> REFRESH_PERIOD then
              (let constantPressure =
                     (holdConstantProperty g = PRESSURE_T \<or> holdConstantProperty g = PRESSURE_V);
                   noiseEnabled = (\<not> constantPressure \<and> pressureNoiseProperty g);
                   noise =
                     (if noiseEnabled then
                        (case (pressureNoiseFunction g (pressureProperty g),
                               scaleNoiseFunction (toNumber (temperatureProperty g))) of
                           (Some pn, Some sn) \<Rightarrow>
                             (let noise = pn * sn * nextDouble
                              in if noise < pressureProperty g
                                 then Some (noise * (if nextBoolean then 1 else - 1))
                                 else Some noise)
                         | _ \<Rightarrow> None)
                      else Some 0)
               in case noise of
                    None \<Rightarrow> Inl NotFinite
                  | Some noise \<Rightarrow>
                      (case setPressureKilopascals (pressureProperty g + noise) g of
                         Inl e \<Rightarrow> Inl e
                       | Inr g \<Rightarrow> Inr (g\<lparr>dtAccumulator := 0\<rparr>)))
            else Inr g))"

text \<open>
  Modelled from the spec: the derivation of the pressure from the wall collisions is not
  among the sources (\<open>PressureGauge.js\<close> reads \<open>pressureProperty\<close>). Section 4.7: the
  momentum transferred to the walls, accumulated over a sampling window, is divided by the
  duration of the window and by a conversion constant; for an empty container the
  pressure is zero, whatever the accumulator holds.
\<close>

definition derivePressure :: "nat \<Rightarrow> real \<Rightarrow> real \<Rightarrow> real \<Rightarrow> real" where
  "derivePressure numberOfParticles momentum window conversion =
     (if numberOfParticles = 0 then 0 else momentum / window / conversion)"

section \<open>Containers (BaseContainer)\<close>

text \<open>\<open>DOT/RangeWithValue( min, max, defaultValue )\<close>.\<close>

record rangeWithValue =
  rangeMin :: real
  rangeMax :: real
  defaultValue :: real

definition contains :: "rangeWithValue \<Rightarrow> real \<Rightarrow> bool" where
  "contains r v \<longleftrightarrow> rangeMin r \<le> v \<and> v \<le> rangeMax r"

record baseContainer =
  containerLocation :: vector2
  widthRange :: rangeWithValue
  widthProperty :: real
  leftWallVelocity :: vector2
  leftWallDoesWork :: bool

definition height :: real where
  "height = 8750"

definition depth :: real where
  "depth = 4000"

definition wallThickness :: real where
  "wallThickness = 75"

text \<open>The derived Properties \<open>volumeProperty\<close> and \<open>boundsProperty\<close>.\<close>

definition volumeProperty :: "'a baseContainer_scheme \<Rightarrow> real" where
  "volumeProperty c = widthProperty c * height * depth"

definition boundsProperty :: "'a baseContainer_scheme \<Rightarrow> bounds2" where
  "boundsProperty c =
     \<lparr>minX = getX (containerLocation c) - widthProperty c, minY = getY (containerLocation c),
      maxX = getX (containerLocation c), maxY = getY (containerLocation c) + height\<rparr>"

definition maxBounds :: "'a baseContainer_scheme \<Rightarrow> bounds2" where
  "maxBounds c =
     \<lparr>minX = getX (containerLocation c) - rangeMax (widthRange c), minY = getY (containerLocation c),
      maxX = getX (containerLocation c), maxY = getY (containerLocation c) + height\<rparr>"

text \<open>
  \<open>widthProperty.value = width\<close>: the NumberProperty validates the value against its
  \<open>range\<close>, and the derived \<open>volumeProperty\<close> validates the new volume with its
  \<open>isValidValue\<close>.
\<close>

definition setWidth :: "real \<Rightarrow> baseContainer \<Rightarrow> error + baseContainer" where
  "setWidth width c =
     (if \<not> contains (widthRange c) width then Inl InvalidValue
      else
        (let c = c\<lparr>widthProperty := width\<rparr>
         in if \<not> 0 < volumeProperty c then Inl InvalidValue else Inr c))"

text \<open>The constructor, with its options \<open>location\<close>, \<open>widthRange\<close> and \<open>leftWallDoesWork\<close>.\<close>

definition newBaseContainer :: "vector2 \<Rightarrow> rangeWithValue \<Rightarrow> bool \<Rightarrow> error + baseContainer" where
  "newBaseContainer loc wRange doesWork =
     setWidth (defaultValue wRange)
       \<lparr>containerLocation = loc, widthRange = wRange, widthProperty = defaultValue wRange,
        leftWallVelocity = \<lparr>getX = 0, getY = 0\<rparr>, leftWallDoesWork = doesWork\<rparr>"

text \<open>The default options.\<close>

definition defaultBaseContainer :: "error + baseContainer" where
  "defaultBaseContainer =
     newBaseContainer \<lparr>getX = 0, getY = 0\<rparr>
       \<lparr>rangeMin = 5000, rangeMax = 15000, defaultValue = 10000\<rparr> False"

text \<open>\<open>reset()\<close>: \<open>widthProperty.reset()\<close> sets the initial value, the default of the range.\<close>

definition reset :: "baseContainer \<Rightarrow> error + baseContainer" where
  "reset c = setWidth (defaultValue (widthRange c)) c"

definition containsParticle :: "'a baseContainer_scheme \<Rightarrow> particle \<Rightarrow> bool" where
  "containsParticle c particle \<longleftrightarrow>
     left particle \<ge> minX (boundsProperty c) \<and> right particle \<le> maxX (boundsProperty c) \<and>
     bottom particle \<ge> minY (boundsProperty c) \<and> top' particle \<le> maxY (boundsProperty c)"

text \<open>
  The operations that change a container: \<open>reset()\<close>, and setting the width, which the
  callers of the class do through \<open>widthProperty\<close>.
\<close>

datatype containerOperation = Reset | SetWidth real

fun operation :: "containerOperation \<Rightarrow> baseContainer \<Rightarrow> error + baseContainer" where
  "operation Reset c = reset c"
| "operation (SetWidth w) c = setWidth w c"

fun operations :: "containerOperation list \<Rightarrow> baseContainer \<Rightarrow> error + baseContainer" where
  "operations [] c = Inr c"
| "operations (x # xs) c =
     (case operation x c of Inl e \<Rightarrow> Inl e | Inr c' \<Rightarrow> operations xs c')"

section \<open>Collisions with the container (DiffusionCollisionDetector)\<close>

text \<open>
  Modelled from the spec: \<open>diffusion/model/DiffusionContainer.js\<close> is not among the
  sources. Sections 3 and 4.2: the container of the diffusion variant has a divider with
  an x-position and a flag, and exposes the bounds of its left and right sides when the
  divider is present: the parts of its bounds to the left and to the right of the divider.
\<close>

record diffusionContainer = baseContainer +
  dividerX :: real
  hasDividerProperty :: bool

definition leftBounds :: "diffusionContainer \<Rightarrow> bounds2" where
  "leftBounds c = (boundsProperty c)\<lparr>maxX := dividerX c\<rparr>"

definition rightBounds :: "diffusionContainer \<Rightarrow> bounds2" where
  "rightBounds c = (boundsProperty c)\<lparr>minX := dividerX c\<rparr>"

text \<open>
  Modelled from the spec: \<open>common/model/CollisionDetector.js\<close> is not among the sources.
  Section 4.4: a collision with the container is resolved by reflecting the velocity
  component normal to the wall that was crossed; the movable left wall adds its own
  velocity; the number of collisions is returned. Section 8: after each step no particle
  lies outside the bounds, so a particle that has reached or crossed a wall is put back
  against it. \<open>updateParticleContainerCollisions\<close> of the base class handles every array
  against the bounds of the container, with the velocity of its left wall.
\<close>

definition collideX :: "bounds2 \<Rightarrow> vector2 \<Rightarrow> particle \<Rightarrow> particle \<times> bool" where
  "collideX b wallVelocity p =
     (if left p \<le> minX b then
        (setVelocityXY (- (getX (velocity p) - getX wallVelocity)) (getY (velocity p))
           (setLocationXY (minX b + radius p) (getY (location p)) p), True)
      else if right p \<ge> maxX b then
        (setVelocityXY (- getX (velocity p)) (getY (velocity p))
           (setLocationXY (maxX b - radius p) (getY (location p)) p), True)
      else (p, False))"

definition collideY :: "bounds2 \<Rightarrow> particle \<Rightarrow> particle \<times> bool" where
  "collideY b p =
     (if top' p \<ge> maxY b then
        (setVelocityXY (getX (velocity p)) (- getY (velocity p))
           (setLocationXY (getX (location p)) (maxY b - radius p) p), True)
      else if bottom p \<le> minY b then
        (setVelocityXY (getX (velocity p)) (- getY (velocity p))
           (setLocationXY (getX (location p)) (minY b + radius p) p), True)
      else (p, False))"

definition collideParticle :: "bounds2 \<Rightarrow> vector2 \<Rightarrow> particle \<Rightarrow> particle \<times> bool" where
  "collideParticle b wallVelocity p =
     (let cx = collideX b wallVelocity p; cy = collideY b (fst cx)
      in (fst cy, snd cx \<or> snd cy))"

fun doParticleContainerCollisions ::
  "ref list \<Rightarrow> bounds2 \<Rightarrow> vector2 \<Rightarrow> heap \<times> nat \<Rightarrow> heap \<times> nat" where
  "doParticleContainerCollisions [] b wallVelocity s = s"
| "doParticleContainerCollisions (r # rs) b wallVelocity s =
     (let c = collideParticle b wallVelocity (fst s r)
      in doParticleContainerCollisions rs b wallVelocity
           ((fst s)(r := fst c), if snd c then snd s + 1 else snd s))"

text \<open>
  For the statements about collisions: a particle lies within given bounds with its whole
  disc (as in \<open>containsParticle\<close> of \<open>BaseContainer\<close>), and a particle is small enough
  to lie within them.
\<close>

definition boundsContainParticle :: "bounds2 \<Rightarrow> particle \<Rightarrow> bool" where
  "boundsContainParticle b p \<longleftrightarrow>
     left p \<ge> minX b \<and> right p \<le> maxX b \<and> bottom p \<ge> minY b \<and> top' p \<le> maxY b"

definition fitsInto :: "bounds2 \<Rightarrow> particle \<Rightarrow> bool" where
  "fitsInto b p \<longleftrightarrow>
     0 \<le> radius p \<and> 2 * radius p \<le> maxX b - minX b \<and> 2 * radius p \<le> maxY b - minY b"

text \<open>
  The detector: its container and \<open>particleArrays\<close>, which the constructor sets to
  \<open>[ particles1, particles2 ]\<close>.
\<close>

record diffusionCollisionDetector =
  container :: diffusionContainer
  particleArrays :: "ref list list"

definition newDiffusionCollisionDetector ::
  "diffusionContainer \<Rightarrow> ref list \<Rightarrow> ref list \<Rightarrow> diffusionCollisionDetector" where
  "newDiffusionCollisionDetector c species1 species2 =
     \<lparr>container = c, particleArrays = [species1, species2]\<rparr>"

text \<open>\<open>array[ i ]\<close>, which is \<open>undefined\<close> beyond the end of the array.\<close>

definition element :: "'a list \<Rightarrow> nat \<Rightarrow> 'a option" where
  "element bs i = (if i < length bs then Some (bs ! i) else None)"

fun superUpdateParticleContainerCollisions ::
  "ref list list \<Rightarrow> bounds2 \<Rightarrow> vector2 \<Rightarrow> heap \<times> nat \<Rightarrow> heap \<times> nat" where
  "superUpdateParticleContainerCollisions [] b wallVelocity s = s"
| "superUpdateParticleContainerCollisions (a # as) b wallVelocity s =
     superUpdateParticleContainerCollisions as b wallVelocity
       (doParticleContainerCollisions a b wallVelocity s)"

text \<open>
  \<open>updateParticleContainerCollisions()\<close> of \<open>DiffusionCollisionDetector\<close>: the heap with
  the particles after the collisions, and the number of collisions.
\<close>

definition updateParticleContainerCollisions ::
  "diffusionCollisionDetector \<Rightarrow> heap \<Rightarrow> error + heap \<times> nat" where
  "updateParticleContainerCollisions d h =
     (if hasDividerProperty (container d) then
        (let leftWallVelocity = \<lparr>getX = 0, getY = 0\<rparr>
         in case (element (particleArrays d) 0, element (particleArrays d) 1) of
              (Some a0, Some a1) \<Rightarrow>
                (let s = doParticleContainerCollisions a0 (leftBounds (container d))
                           leftWallVelocity (h, 0);
                     s = doParticleContainerCollisions a1 (rightBounds (container d))
                           leftWallVelocity s
                 in Inr s)
            | _ \<Rightarrow> Inl TypeError)
      else
        Inr (superUpdateParticleContainerCollisions (particleArrays d)
               (boundsProperty (container d)) (leftWallVelocity (container d)) (h, 0)))"

section \<open>Example states\<close>

text \<open>A particle system with two light particles at rest, used to instantiate the theorems.\<close>

definition ps0 :: particleSystem where
  "ps0 = \<lparr>objects = (\<lambda>r. LightParticle), nextRef = 2, getInitialTemperature = 300,
          collisionsEnabledProperty = False, particleEntryLocation = \<lparr>getX = 0, getY = 4375\<rparr>,
          heavyParticles = [], lightParticles = [0, 1], heavyParticlesOutside = [],
          lightParticlesOutside = [], velocityNotANumber = {}\<rparr>"

text \<open>
  The same system with both particles moving at velocity (3, 4), and with
  particle-particle collisions enabled.
\<close>

definition ps1 :: particleSystem where
  "ps1 = ps0\<lparr>objects := (\<lambda>r. setVelocityXY 3 4 LightParticle)\<rparr>"

definition ps2 :: particleSystem where
  "ps2 = ps0\<lparr>collisionsEnabledProperty := True\<rparr>"

text \<open>Three standard normal deviates, the first of them far below the mean.\<close>

definition draws :: "nat \<Rightarrow> real" where
  "draws i = (if i = 0 then - 7.6 else 0.5)"

text \<open>
  An \<open>IdealModel\<close> with the two moving particles, one with no particle, and the data of
  a side of the diffusion container that holds the two particles.
\<close>

definition im1 :: idealModel where
  "im1 = \<lparr>objects_im = (\<lambda>r. setVelocityXY 3 4 LightParticle), heavyParticles_im = [0],
          lightParticles_im = [1], temperatureKelvinProperty = None\<rparr>"

definition im0 :: idealModel where
  "im0 = im1\<lparr>heavyParticles_im := [], lightParticles_im := [], temperatureKelvinProperty := Some 300\<rparr>"

definition dd1 :: diffusionData where
  "dd1 = \<lparr>bounds = \<lparr>minX = - 100, minY = - 100, maxX = 100, maxY = 100\<rparr>,
          particles1 = [0], particles2 = [1], numberOfParticles1Property = 0,
          numberOfParticles2Property = 0, averageTemperatureProperty = None\<rparr>"

text \<open>
  A gauge at pressure zero in a container that holds particles at 300 K, the same gauge
  after a refresh with the random number 1/2, and a gauge at 100 kPa.
\<close>

definition gauge0 :: pressureGauge where
  "gauge0 = \<lparr>MAX_PRESSURE = 20000, pressureProperty = 0, temperatureProperty = Some 300,
             holdConstantProperty = NOTHING, pressureNoiseProperty = True,
             pressureKilopascalsProperty = 0, unitsProperty = ATMOSPHERES, dtAccumulator = 0\<rparr>"

definition gauge1 :: pressureGauge where
  "gauge1 = gauge0\<lparr>pressureKilopascalsProperty := 25\<rparr>"

definition gauge2 :: pressureGauge where
  "gauge2 = gauge0\<lparr>pressureProperty := 100, pressureKilopascalsProperty := 100\<rparr>"

text \<open>
  The container with the default options, and a diffusion container with its divider at
  -5000 and one particle of each species, each of which has moved across the divider.
\<close>

definition container0 :: baseContainer where
  "container0 = \<lparr>containerLocation = \<lparr>getX = 0, getY = 0\<rparr>,
       widthRange = \<lparr>rangeMin = 5000, rangeMax = 15000, defaultValue = 10000\<rparr>,
       widthProperty = 10000, leftWallVelocity = \<lparr>getX = 0, getY = 0\<rparr>,
       leftWallDoesWork = False\<rparr>"

definition dcontainer0 :: diffusionContainer where
  "dcontainer0 = \<lparr>containerLocation = \<lparr>getX = 0, getY = 0\<rparr>,
       widthRange = \<lparr>rangeMin = 5000, rangeMax = 15000, defaultValue = 10000\<rparr>,
       widthProperty = 10000, leftWallVelocity = \<lparr>getX = 0, getY = 0\<rparr>,
       leftWallDoesWork = False, dividerX = - 5000, hasDividerProperty = True\<rparr>"

definition heap0 :: heap where
  "heap0 = (\<lambda>r. if r = 0 then setVelocityXY 3 4 (setLocationXY (- 4990) 100 LightParticle)
                 else setVelocityXY (- 3) 4 (setLocationXY (- 5010) 100 LightParticle))"

section \<open>Array lemmas\<close>

lemma indexOf_absent: "a \<notin> set bs \<Longrightarrow> indexOf bs a = - 1"
  by (induction bs) auto

lemma indexOf_present: "a \<in> set bs \<Longrightarrow> 0 \<le> indexOf bs a \<and> indexOf bs a < int (length bs)"
  by (induction bs) (auto simp: Let_def)

lemma splice1_indexOf: "a \<in> set bs \<Longrightarrow> splice1 bs (indexOf bs a) = remove1 a bs"
proof (induction bs)
  case Nil
  then show ?case by simp
next
  case (Cons b bs)
  show ?case
  proof (cases "b = a")
    case True
    then show ?thesis by (simp add: splice1_def)
  next
    case False
    with Cons.prems have mem: "a \<in> set bs" by simp
    from indexOf_present [OF mem] have rng: "0 \<le> indexOf bs a" "indexOf bs a < int (length bs)"
      by simp_all
    from Cons.IH [OF mem] rng have "take (nat (indexOf bs a)) bs @ drop (nat (indexOf bs a) + 1) bs = remove1 a bs"
      by (simp add: splice1_def Let_def min_def)
    with False rng show ?thesis
      by (simp add: splice1_def Let_def min_def nat_add_distrib)
  qed
qed

lemma removeLoop_suffix:
  "distinct (bs @ rs) \<Longrightarrow>
     removeLoop rs (h, bs @ rs) =
       Inr (\<lambda>r. if r \<in> set rs then dispose (h r) else h r, bs)"
proof (induction rs arbitrary: h)
  case Nil
  then show ?case by simp
next
  case (Cons r rs)
  from Cons.prems have notin: "r \<notin> set bs" "r \<notin> set rs" and dist: "distinct (bs @ rs)"
    by auto
  have mem: "r \<in> set (bs @ r # rs)" by simp
  from indexOf_present [OF mem] have idx: "indexOf (bs @ r # rs) r \<noteq> - 1" by linarith
  have rem: "splice1 (bs @ r # rs) (indexOf (bs @ r # rs) r) = bs @ rs"
    using splice1_indexOf [OF mem] notin by (simp add: remove1_append)
  have step: "removeParticle r (h, bs @ r # rs) = Inr (h(r := dispose (h r)), bs @ rs)"
    using idx rem by (simp add: removeParticle_def Let_def)
  have heaps: "(\<lambda>q. if q \<in> set rs then dispose ((h(r := dispose (h r))) q) else (h(r := dispose (h r))) q)
          = (\<lambda>q. if q \<in> set (r # rs) then dispose (h q) else h q)"
    using notin by auto
  have "removeLoop (r # rs) (h, bs @ r # rs) = removeLoop rs (h(r := dispose (h r)), bs @ rs)"
    by (simp only: removeLoop.simps step sum.case)
  also have "\<dots> = Inr (\<lambda>q. if q \<in> set rs then dispose ((h(r := dispose (h r))) q)
                           else (h(r := dispose (h r))) q, bs)"
    by (rule Cons.IH [OF dist])
  also have "\<dots> = Inr (\<lambda>q. if q \<in> set (r # rs) then dispose (h q) else h q, bs)"
    by (simp only: heaps)
  finally show ?case .
qed

lemma slice_suffix:
  "0 \<le> n \<Longrightarrow> n \<le> int (length bs) \<Longrightarrow>
     slice bs (int (length bs) - n) (int (length bs)) = drop (length bs - nat n) bs"
  by (simp add: slice_def Let_def min_def nat_diff_distrib)

lemma removeParticles_suffix:
  assumes "distinct bs" and "0 \<le> n" and "n \<le> int (length bs)"
  shows "removeParticles n (h, bs) =
           Inr (\<lambda>r. if r \<in> set (drop (length bs - nat n) bs) then dispose (h r) else h r,
                take (length bs - nat n) bs)"
proof -
  let ?k = "length bs - nat n"
  have split: "bs = take ?k bs @ drop ?k bs" by simp
  have dist: "distinct (take ?k bs @ drop ?k bs)" using assms(1) by simp
  have "removeLoop (drop ?k bs) (h, take ?k bs @ drop ?k bs) =
          Inr (\<lambda>r. if r \<in> set (drop ?k bs) then dispose (h r) else h r, take ?k bs)"
    by (rule removeLoop_suffix [OF dist])
  then show ?thesis
    using assms(2,3) by (simp add: removeParticles_def slice_suffix)
qed

section \<open>Lemmas about the particle system\<close>

lemma setArray_simps [simp]:
  "objects (setArray arr a ps) = objects ps"
  "nextRef (setArray arr a ps) = nextRef ps"
  "particleEntryLocation (setArray arr a ps) = particleEntryLocation ps"
  "getInitialTemperature (setArray arr a ps) = getInitialTemperature ps"
  "collisionsEnabledProperty (setArray arr a ps) = collisionsEnabledProperty ps"
  "getArray arr (setArray arr a ps) = a"
  "setArray arr a (setArray arr b ps) = setArray arr a ps"
  by (cases arr; simp)+

lemma getArray_update [simp]:
  "getArray arr (ps\<lparr>objects := h\<rparr>) = getArray arr ps"
  "getArray arr (ps\<lparr>nextRef := n\<rparr>) = getArray arr ps"
  by (cases arr; simp)+

lemma setArray_update:
  "setArray arr a (ps\<lparr>objects := h\<rparr>) = (setArray arr a ps)\<lparr>objects := h\<rparr>"
  "setArray arr a (ps\<lparr>nextRef := n\<rparr>) = (setArray arr a ps)\<lparr>nextRef := n\<rparr>"
  by (cases arr; simp)+

lemma particle_simps [simp]:
  "mass (setLocationXY a b p) = mass p"
  "radius (setLocationXY a b p) = radius p"
  by (simp_all add: setLocationXY_def)

lemma generateValues_result:
  "generateValues z m d k i s =
     (fst s @ map (\<lambda>j. boxMullerTransform m d (z j)) [i ..< i + k],
      snd s + sum_list (map (\<lambda>j. boxMullerTransform m d (z j)) [i ..< i + k]))"
proof (induction k arbitrary: i s)
  case 0
  then show ?case by simp
next
  case (Suc k)
  have "[i ..< i + Suc k] = i # [Suc i ..< Suc i + k]"
    by (simp add: upt_rec [of i] del: upt_Suc)
  then show ?case by (simp add: Suc.IH Let_def add.assoc del: upt_Suc)
qed

lemma adjustValues_result:
  "i + k = length vs \<Longrightarrow>
     adjustValues dm k i (vs, s) =
       (take i vs @ map (\<lambda>v. v + dm) (drop i vs), s + sum_list (map (\<lambda>v. v + dm) (drop i vs)))"
proof (induction k arbitrary: i vs s)
  case 0
  then show ?case by simp
next
  case (Suc k)
  from Suc.prems have i: "i < length vs" by simp
  have len: "Suc i + k = length (vs[i := vs ! i + dm])" using Suc.prems by simp
  have drop: "drop i vs = vs ! i # drop (Suc i) vs"
    using i by (simp add: Cons_nth_drop_Suc)
  have take: "take (Suc i) (vs[i := vs ! i + dm]) = take i vs @ [vs ! i + dm]"
    using i by (simp add: take_Suc_conv_app_nth)
  show ?case
    using i by (simp add: Let_def Suc.IH [OF len] drop take add.assoc)
qed

lemma sum_list_shift:
  "sum_list (map (\<lambda>v. v + c) vs) = sum_list vs + c * real (length vs)" for c :: real
  by (induction vs) (simp_all add: algebra_simps)

lemma getGaussianValues_result:
  assumes "0 < n" and "0 < threshold"
  shows "getGaussianValues z n mean deviation threshold =
           Inr (map (\<lambda>i. boxMullerTransform mean deviation (z i) +
                          (mean - (\<Sum>j < nat n. boxMullerTransform mean deviation (z j)) / real_of_int n))
                  [0 ..< nat n])"
    (is "_ = Inr ?res")
proof -
  let ?raw = "map (\<lambda>j. boxMullerTransform mean deviation (z j)) [0 ..< nat n]"
  let ?dm = "mean - sum_list ?raw / real_of_int n"
  have gen: "generateValues z mean deviation (nat n) 0 ([], 0) = (?raw, sum_list ?raw)"
    by (simp add: generateValues_result)
  have adj: "adjustValues ?dm (length ?raw) 0 (?raw, 0) =
               (map (\<lambda>v. v + ?dm) ?raw, sum_list (map (\<lambda>v. v + ?dm) ?raw))"
    using adjustValues_result [of 0 "length ?raw" ?raw ?dm 0] by simp
  have n: "real (nat n) = real_of_int n" "real_of_int n \<noteq> 0" using assms(1) by simp_all
  have "sum_list (map (\<lambda>v. v + ?dm) ?raw) = sum_list ?raw + ?dm * real_of_int n"
    using n sum_list_shift [of ?dm ?raw] by simp
  then have mean: "sum_list (map (\<lambda>v. v + ?dm) ?raw) / real_of_int n = mean"
    using n by (simp add: field_simps)
  have sum: "sum_list ?raw = (\<Sum>j < nat n. boxMullerTransform mean deviation (z j))"
    by (simp add: sum_list_sum_nth atLeast0LessThan)
  have res: "map (\<lambda>v. v + ?dm) ?raw = ?res"
    unfolding sum by (simp add: comp_def)
  show ?thesis
    unfolding getGaussianValues_def gen
    using assms adj mean res by (simp add: Let_def)
qed

lemma gaussian_mean:
  assumes "0 < n"
  shows "sum_list (map (\<lambda>i. f i + (mean - (\<Sum>j < nat n. f j) / real_of_int n)) [0 ..< nat n])
           / real_of_int n = mean"
proof -
  have n: "real (nat n) = real_of_int n" "real_of_int n \<noteq> 0" using assms(1) by simp_all
  have "sum_list (map (\<lambda>i. f i + (mean - (\<Sum>j < nat n. f j) / real_of_int n)) [0 ..< nat n])
          = (\<Sum>i < nat n. f i + (mean - (\<Sum>j < nat n. f j) / real_of_int n))"
    by (simp add: sum_list_sum_nth atLeast0LessThan)
  also have "\<dots> = (\<Sum>i < nat n. f i) + real (nat n) * (mean - (\<Sum>j < nat n. f j) / real_of_int n)"
    by (simp add: sum.distrib)
  finally show ?thesis using n by (simp add: field_simps)
qed

lemma magnitudeSquared_polar:
  "magnitudeSquared (velocity (setVelocityPolar m a p)) = m * m"
proof -
  have "(cos a)\<^sup>2 + (sin a)\<^sup>2 = 1" by simp
  then have "cos a * cos a + sin a * sin a = 1" by (simp only: power2_eq_square)
  then have "m * m * (cos a * cos a + sin a * sin a) = m * m" by simp
  then have "m * cos a * (m * cos a) + m * sin a * (m * sin a) = m * m"
    by (simp only: algebra_simps)
  then show ?thesis
    by (simp add: magnitudeSquared_def setVelocityPolar_def setVelocityXY_def)
qed

lemma magnitude_polar:
  "0 \<le> m \<Longrightarrow> magnitude (velocity (setVelocityPolar m a p)) = m"
  by (simp add: magnitude_def magnitudeSquared_polar)

lemma polar_fields [simp]:
  "location (setVelocityPolar m a p) = location p"
  "mass (setVelocityPolar m a p) = mass p"
  "radius (setVelocityPolar m a p) = radius p"
  "velocity (setVelocityPolar m a p) = \<lparr>getX = m * cos a, getY = m * sin a\<rparr>"
  "location (setLocationXY b c p) = \<lparr>getX = b, getY = c\<rparr>"
  by (simp_all add: setVelocityPolar_def setVelocityXY_def setLocationXY_def)

lemma getKineticEnergy_nonneg: "0 < mass p \<Longrightarrow> 0 \<le> getKineticEnergy p"
  by (simp add: getKineticEnergy_def magnitudeSquared_def)

lemma getKineticEnergy_setVelocityMagnitude:
  "getKineticEnergy (setVelocityMagnitude s p) = 0.5 * mass p * (s * s)"
  using magnitudeSquared_polar [of s "angle (velocity p)" p]
  by (simp add: getKineticEnergy_def setVelocityMagnitude_def)

lemma scaled_energy:
  assumes "0 < mass p" and "0 \<le> q"
  shows "getKineticEnergy (setVelocityMagnitude (sqrt (2 * (q * getKineticEnergy p) / mass p)) p)
           = q * getKineticEnergy p"
proof -
  have "0 \<le> 2 * (q * getKineticEnergy p) / mass p"
    using assms getKineticEnergy_nonneg [OF assms(1)] by simp
  then have "sqrt (2 * (q * getKineticEnergy p) / mass p) * sqrt (2 * (q * getKineticEnergy p) / mass p)
               = 2 * (q * getKineticEnergy p) / mass p"
    by (simp only: real_sqrt_mult_self abs_of_nonneg)
  then show ?thesis
    using assms(1) by (simp add: getKineticEnergy_setVelocityMagnitude)
qed

lemma setArray_marks [simp]:
  "velocityNotANumber (setArray arr a ps) = velocityNotANumber ps"
  "getArray arr (ps\<lparr>velocityNotANumber := s\<rparr>) = getArray arr ps"
  by (cases arr; simp)+

lemma createParticles_result:
  assumes "\<forall>j. i \<le> j \<and> j < i + k \<longrightarrow> j < length temps"
  shows "createParticles u temps arr cp k i ps =
     Inr ((setArray arr (getArray arr ps @ [nextRef ps ..< nextRef ps + k]) ps)
       \<lparr>objects := (\<lambda>r. if nextRef ps \<le> r \<and> r < nextRef ps + k
            then (case Option.bind (js_div (3 * BOLTZMANN * temps ! (i + (r - nextRef ps))) (mass cp)) js_sqrt of
                    Some v \<Rightarrow>
                      setVelocityPolar v
                        (pi - PARTICLE_DISPERSION_ANGLE / 2 + u (i + (r - nextRef ps)) * PARTICLE_DISPERSION_ANGLE)
                        (setLocationXY (getX (particleEntryLocation ps) - radius cp)
                           (getY (particleEntryLocation ps)) cp)
                  | None \<Rightarrow>
                      setLocationXY (getX (particleEntryLocation ps) - radius cp)
                        (getY (particleEntryLocation ps)) cp)
            else objects ps r),
          nextRef := nextRef ps + k,
          velocityNotANumber := {r. if nextRef ps \<le> r \<and> r < nextRef ps + k
            then Option.bind (js_div (3 * BOLTZMANN * temps ! (i + (r - nextRef ps))) (mass cp)) js_sqrt = None
            else r \<in> velocityNotANumber ps}\<rparr>)"
  using assms
proof (induction k arbitrary: i ps)
  case 0
  have "(\<lambda>r. if nextRef ps \<le> r \<and> r < nextRef ps then f r else objects ps r) = objects ps" for f
    by (intro ext) (simp add: not_less [symmetric])
  moreover have "{r. if nextRef ps \<le> r \<and> r < nextRef ps then P r else r \<in> velocityNotANumber ps}
      = velocityNotANumber ps" for P
    by (auto simp: not_less [symmetric])
  ultimately show ?case by (cases arr) simp_all
next
  case (Suc k)
  let ?placed = "setLocationXY (getX (particleEntryLocation ps) - radius cp)
                      (getY (particleEntryLocation ps)) cp"
  let ?speed = "\<lambda>j. Option.bind (js_div (3 * BOLTZMANN * temps ! j) (mass cp)) js_sqrt"
  let ?made = "\<lambda>j. case ?speed j of
                    Some v \<Rightarrow>
                      setVelocityPolar v
                        (pi - PARTICLE_DISPERSION_ANGLE / 2 + u j * PARTICLE_DISPERSION_ANGLE) ?placed
                  | None \<Rightarrow> ?placed"
  let ?r = "nextRef ps"
  let ?nan = "if ?speed i = None then insert ?r (velocityNotANumber ps) else velocityNotANumber ps - {?r}"
  let ?ps1 = "setArray arr (getArray arr ps @ [?r])
                (ps\<lparr>objects := (objects ps)(?r := ?made i), nextRef := Suc ?r,
                    velocityNotANumber := ?nan\<rparr>)"
  have i: "i < length temps" using Suc.prems by auto
  have rest: "\<forall>j. Suc i \<le> j \<and> j < Suc i + k \<longrightarrow> j < length temps"
    using Suc.prems by auto
  have step: "createParticles u temps arr cp (Suc k) i ps = createParticles u temps arr cp k (Suc i) ?ps1"
    using i by (cases "?speed i") (simp_all add: Let_def)
  have heaps: "(\<lambda>r. if Suc ?r \<le> r \<and> r < Suc ?r + k then ?made (Suc i + (r - Suc ?r))
                     else ((objects ps)(?r := ?made i)) r)
             = (\<lambda>r. if ?r \<le> r \<and> r < ?r + Suc k then ?made (i + (r - ?r)) else objects ps r)"
  proof (intro ext)
    fix r
    consider "r < ?r" | "r = ?r" | "Suc ?r \<le> r" by linarith
    then show "(if Suc ?r \<le> r \<and> r < Suc ?r + k then ?made (Suc i + (r - Suc ?r))
                     else ((objects ps)(?r := ?made i)) r)
             = (if ?r \<le> r \<and> r < ?r + Suc k then ?made (i + (r - ?r)) else objects ps r)"
    proof cases
      case 3
      then have eq: "Suc i + (r - Suc ?r) = i + (r - ?r)" by simp
      show ?thesis unfolding eq using 3 by simp
    qed (simp_all split: option.splits)
  qed
  have marks: "{r. if Suc ?r \<le> r \<and> r < Suc ?r + k then ?speed (Suc i + (r - Suc ?r)) = None
                     else r \<in> ?nan}
             = {r. if ?r \<le> r \<and> r < ?r + Suc k then ?speed (i + (r - ?r)) = None
                     else r \<in> velocityNotANumber ps}"
  proof (intro Collect_cong)
    fix r
    consider "r < ?r" | "r = ?r" | "Suc ?r \<le> r" by linarith
    then show "(if Suc ?r \<le> r \<and> r < Suc ?r + k then ?speed (Suc i + (r - Suc ?r)) = None
                     else r \<in> ?nan)
             = (if ?r \<le> r \<and> r < ?r + Suc k then ?speed (i + (r - ?r)) = None
                     else r \<in> velocityNotANumber ps)"
    proof cases
      case 3
      then have eq: "Suc i + (r - Suc ?r) = i + (r - ?r)" by simp
      show ?thesis unfolding eq using 3 by simp
    qed auto
  qed
  have upt: "[?r] @ [Suc ?r ..< Suc ?r + k] = [?r ..< ?r + Suc k]"
    by (simp add: upt_rec [of ?r] del: upt_Suc)
  have ps1: "nextRef ?ps1 = Suc ?r" "particleEntryLocation ?ps1 = particleEntryLocation ps"
    "objects ?ps1 = (objects ps)(?r := ?made i)" "getArray arr ?ps1 = getArray arr ps @ [?r]"
    "velocityNotANumber ?ps1 = ?nan"
    by simp_all
  have final: "(setArray arr ((getArray arr ps @ [?r]) @ [Suc ?r ..< Suc ?r + k]) ?ps1)
                  \<lparr>objects := h, nextRef := n, velocityNotANumber := s\<rparr>
             = (setArray arr (getArray arr ps @ [?r ..< ?r + Suc k]) ps)
                  \<lparr>objects := h, nextRef := n, velocityNotANumber := s\<rparr>" for h n s
    using upt by (cases arr) (simp_all del: upt_Suc)
  have "createParticles u temps arr cp k (Suc i) ?ps1 =
     Inr ((setArray arr ((getArray arr ps @ [?r]) @ [Suc ?r ..< Suc ?r + k]) ?ps1)
       \<lparr>objects := (\<lambda>r. if Suc ?r \<le> r \<and> r < Suc ?r + k then ?made (Suc i + (r - Suc ?r))
                     else ((objects ps)(?r := ?made i)) r),
          nextRef := Suc ?r + k,
          velocityNotANumber := {r. if Suc ?r \<le> r \<and> r < Suc ?r + k
                     then ?speed (Suc i + (r - Suc ?r)) = None else r \<in> ?nan}\<rparr>)"
    using Suc.IH [OF rest, of ?ps1] unfolding ps1 .
  also have "\<dots> = Inr ((setArray arr (getArray arr ps @ [?r ..< ?r + Suc k]) ps)
       \<lparr>objects := (\<lambda>r. if ?r \<le> r \<and> r < ?r + Suc k then ?made (i + (r - ?r)) else objects ps r),
          nextRef := ?r + Suc k,
          velocityNotANumber := {r. if ?r \<le> r \<and> r < ?r + Suc k then ?speed (i + (r - ?r)) = None
                     else r \<in> velocityNotANumber ps}\<rparr>)"
    unfolding heaps marks final by simp
  finally show ?case using step by simp
qed


lemma gaussian_explicit:
  assumes "0 < n"
  shows "boxMullerTransform T (0.2 * T) (z i) +
           (T - (\<Sum>j < nat n. boxMullerTransform T (0.2 * T) (z j)) / real_of_int n)
         = T + 0.2 * T * (z i - (\<Sum>j < nat n. z j) / real_of_int n)"
proof -
  have n: "real (nat n) = real_of_int n" "real_of_int n \<noteq> 0" using assms by simp_all
  have "(\<Sum>j < nat n. boxMullerTransform T (0.2 * T) (z j))
          = (0.2 * T) * (\<Sum>j < nat n. z j) + real (nat n) * T"
    by (simp add: boxMullerTransform_def sum.distrib sum_distrib_left mult.commute)
  then show ?thesis
    using n by (simp add: boxMullerTransform_def field_simps)
qed

lemma addParticles_result:
  assumes n: "0 < n"
    and temps: "temperatures =
      (if n \<noteq> 1 \<and> collisionsEnabledProperty ps
       then map (\<lambda>i. getInitialTemperature ps + 0.2 * getInitialTemperature ps *
                        (z i - (\<Sum>j < nat n. z j) / real_of_int n))
              [0 ..< nat n]
       else replicate (nat n) (getInitialTemperature ps))"
  shows "addParticles z u n arr cp ps =
     Inr ((setArray arr (getArray arr ps @ [nextRef ps ..< nextRef ps + nat n]) ps)
       \<lparr>objects := (\<lambda>r. if nextRef ps \<le> r \<and> r < nextRef ps + nat n
            then (case Option.bind (js_div (3 * BOLTZMANN * temperatures ! (0 + (r - nextRef ps))) (mass cp)) js_sqrt of
                    Some v \<Rightarrow>
                      setVelocityPolar v
                        (pi - PARTICLE_DISPERSION_ANGLE / 2 + u (0 + (r - nextRef ps)) * PARTICLE_DISPERSION_ANGLE)
                        (setLocationXY (getX (particleEntryLocation ps) - radius cp)
                           (getY (particleEntryLocation ps)) cp)
                  | None \<Rightarrow>
                      setLocationXY (getX (particleEntryLocation ps) - radius cp)
                        (getY (particleEntryLocation ps)) cp)
            else objects ps r),
          nextRef := nextRef ps + nat n,
          velocityNotANumber := {r. if nextRef ps \<le> r \<and> r < nextRef ps + nat n
            then Option.bind (js_div (3 * BOLTZMANN * temperatures ! (0 + (r - nextRef ps))) (mass cp)) js_sqrt = None
            else r \<in> velocityNotANumber ps}\<rparr>)"
proof -
  let ?T = "getInitialTemperature ps"
  have len: "length temperatures = nat n" by (simp add: temps)
  have gauss: "getGaussianValues z n ?T (0.2 * ?T) (1 / 1000) =
      Inr (map (\<lambda>i. ?T + 0.2 * ?T * (z i - (\<Sum>j < nat n. z j) / real_of_int n)) [0 ..< nat n])"
    unfolding gaussian_explicit [OF n, symmetric]
    by (rule getGaussianValues_result [OF n]) simp
  have code: "(if n \<noteq> 1 \<and> collisionsEnabledProperty ps
          then getGaussianValues z n ?T (0.2 * ?T) (1 / 1000)
          else Inr (replicate (nat n) ?T)) = Inr temperatures"
    unfolding gauss by (simp add: temps)
  have ok: "\<forall>j. 0 \<le> j \<and> j < 0 + nat n \<longrightarrow> j < length temperatures"
    using len by simp
  have "addParticles z u n arr cp ps = createParticles u temperatures arr cp (nat n) 0 ps"
    unfolding addParticles_def Let_def code using n by simp
  then show ?thesis
    using createParticles_result [OF ok, of u arr cp ps] by simp
qed

lemma speed_number:
  assumes "0 \<le> t" and "0 < m"
  shows "Option.bind (js_div (3 * BOLTZMANN * t) m) js_sqrt = Some (sqrt (3 * BOLTZMANN * t / m))"
    and "0 \<le> sqrt (3 * BOLTZMANN * t / m)"
proof -
  have "0 \<le> 3 * BOLTZMANN * t" using assms(1) by (simp add: BOLTZMANN_def)
  then have nonneg: "0 \<le> 3 * BOLTZMANN * t / m" using assms(2) by (rule divide_nonneg_pos)
  then show "Option.bind (js_div (3 * BOLTZMANN * t) m) js_sqrt = Some (sqrt (3 * BOLTZMANN * t / m))"
    using assms(2) by (simp add: js_div_def js_sqrt_def not_less)
  from nonneg show "0 \<le> sqrt (3 * BOLTZMANN * t / m)" by (simp only: real_sqrt_ge_zero)
qed

lemma speed_not_a_number:
  assumes "t < 0" and "0 < m"
  shows "Option.bind (js_div (3 * BOLTZMANN * t) m) js_sqrt = None"
proof -
  have "3 * BOLTZMANN * t < 0" using assms(1) by (simp add: BOLTZMANN_def mult_less_0_iff)
  then have "3 * BOLTZMANN * t / m < 0" using assms(2) by (simp add: divide_less_0_iff)
  then show ?thesis using assms(2) by (simp add: js_div_def js_sqrt_def)
qed


lemma addParticles_particles:
  assumes n: "0 < n"
    and temps: "temperatures =
      (if n \<noteq> 1 \<and> collisionsEnabledProperty ps
       then map (\<lambda>i. getInitialTemperature ps + 0.2 * getInitialTemperature ps *
                        (z i - (\<Sum>j < nat n. z j) / real_of_int n))
              [0 ..< nat n]
       else replicate (nat n) (getInitialTemperature ps))"
  shows "\<exists>ps'. addParticles z u n arr cp ps = Inr ps'
      \<and> getArray arr ps' = getArray arr ps @ [nextRef ps ..< nextRef ps + nat n]
      \<and> (\<forall>r < nextRef ps. objects ps' r = objects ps r)
      \<and> (\<forall>i < nat n.
            location (objects ps' (nextRef ps + i)) =
              \<lparr>getX = getX (particleEntryLocation ps) - radius cp,
               getY = getY (particleEntryLocation ps)\<rparr>
          \<and> mass (objects ps' (nextRef ps + i)) = mass cp
          \<and> radius (objects ps' (nextRef ps + i)) = radius cp
          \<and> (0 \<le> temperatures ! i \<and> 0 < mass cp \<longrightarrow>
                nextRef ps + i \<notin> velocityNotANumber ps'
              \<and> magnitude (velocity (objects ps' (nextRef ps + i))) =
                  sqrt (3 * BOLTZMANN * temperatures ! i / mass cp)
              \<and> velocity (objects ps' (nextRef ps + i)) =
                  \<lparr>getX = sqrt (3 * BOLTZMANN * temperatures ! i / mass cp) *
                            cos (pi - PARTICLE_DISPERSION_ANGLE / 2 + u i * PARTICLE_DISPERSION_ANGLE),
                   getY = sqrt (3 * BOLTZMANN * temperatures ! i / mass cp) *
                            sin (pi - PARTICLE_DISPERSION_ANGLE / 2 + u i * PARTICLE_DISPERSION_ANGLE)\<rparr>)
          \<and> (temperatures ! i < 0 \<and> 0 < mass cp \<longrightarrow>
                nextRef ps + i \<in> velocityNotANumber ps'))"
proof -
  let ?placed = "setLocationXY (getX (particleEntryLocation ps) - radius cp)
                      (getY (particleEntryLocation ps)) cp"
  let ?speed = "\<lambda>j. Option.bind (js_div (3 * BOLTZMANN * temperatures ! j) (mass cp)) js_sqrt"
  let ?made = "\<lambda>j. case ?speed j of
                    Some v \<Rightarrow>
                      setVelocityPolar v
                        (pi - PARTICLE_DISPERSION_ANGLE / 2 + u j * PARTICLE_DISPERSION_ANGLE) ?placed
                  | None \<Rightarrow> ?placed"
  let ?ps' = "(setArray arr (getArray arr ps @ [nextRef ps ..< nextRef ps + nat n]) ps)
       \<lparr>objects := (\<lambda>r. if nextRef ps \<le> r \<and> r < nextRef ps + nat n
            then ?made (0 + (r - nextRef ps)) else objects ps r),
          nextRef := nextRef ps + nat n,
          velocityNotANumber := {r. if nextRef ps \<le> r \<and> r < nextRef ps + nat n
            then ?speed (0 + (r - nextRef ps)) = None else r \<in> velocityNotANumber ps}\<rparr>"
  have add: "addParticles z u n arr cp ps = Inr ?ps'"
    by (rule addParticles_result [OF n temps])
  have arr': "getArray arr ?ps' = getArray arr ps @ [nextRef ps ..< nextRef ps + nat n]"
    by (cases arr) simp_all
  have old: "\<forall>r < nextRef ps. objects ?ps' r = objects ps r" by simp
  have new: "objects ?ps' (nextRef ps + i) = ?made i" if "i < nat n" for i
    using that by (simp split: option.splits)
  have mark: "nextRef ps + i \<in> velocityNotANumber ?ps' \<longleftrightarrow> ?speed i = None" if "i < nat n" for i
    using that by simp
  have fields: "location (?made i) =
              \<lparr>getX = getX (particleEntryLocation ps) - radius cp,
               getY = getY (particleEntryLocation ps)\<rparr>
          \<and> mass (?made i) = mass cp \<and> radius (?made i) = radius cp" for i
    by (cases "?speed i") simp_all
  have number: "nextRef ps + i \<notin> velocityNotANumber ?ps'
              \<and> magnitude (velocity (objects ?ps' (nextRef ps + i))) =
                  sqrt (3 * BOLTZMANN * temperatures ! i / mass cp)
              \<and> velocity (objects ?ps' (nextRef ps + i)) =
                  \<lparr>getX = sqrt (3 * BOLTZMANN * temperatures ! i / mass cp) *
                            cos (pi - PARTICLE_DISPERSION_ANGLE / 2 + u i * PARTICLE_DISPERSION_ANGLE),
                   getY = sqrt (3 * BOLTZMANN * temperatures ! i / mass cp) *
                            sin (pi - PARTICLE_DISPERSION_ANGLE / 2 + u i * PARTICLE_DISPERSION_ANGLE)\<rparr>"
    if "i < nat n" "0 \<le> temperatures ! i \<and> 0 < mass cp" for i
  proof -
    from that(2) have t: "0 \<le> temperatures ! i" and m: "0 < mass cp" by simp_all
    note s = speed_number [OF t m]
    show ?thesis
      unfolding new [OF that(1)] mark [OF that(1)] s(1)
      using magnitude_polar [OF s(2)] by simp
  qed
  have nan: "nextRef ps + i \<in> velocityNotANumber ?ps'"
    if "i < nat n" "temperatures ! i < 0 \<and> 0 < mass cp" for i
    unfolding mark [OF that(1)] using that(2) speed_not_a_number by blast
  have each: "\<forall>i < nat n.
            location (objects ?ps' (nextRef ps + i)) =
              \<lparr>getX = getX (particleEntryLocation ps) - radius cp,
               getY = getY (particleEntryLocation ps)\<rparr>
          \<and> mass (objects ?ps' (nextRef ps + i)) = mass cp
          \<and> radius (objects ?ps' (nextRef ps + i)) = radius cp
          \<and> (0 \<le> temperatures ! i \<and> 0 < mass cp \<longrightarrow>
                nextRef ps + i \<notin> velocityNotANumber ?ps'
              \<and> magnitude (velocity (objects ?ps' (nextRef ps + i))) =
                  sqrt (3 * BOLTZMANN * temperatures ! i / mass cp)
              \<and> velocity (objects ?ps' (nextRef ps + i)) =
                  \<lparr>getX = sqrt (3 * BOLTZMANN * temperatures ! i / mass cp) *
                            cos (pi - PARTICLE_DISPERSION_ANGLE / 2 + u i * PARTICLE_DISPERSION_ANGLE),
                   getY = sqrt (3 * BOLTZMANN * temperatures ! i / mass cp) *
                            sin (pi - PARTICLE_DISPERSION_ANGLE / 2 + u i * PARTICLE_DISPERSION_ANGLE)\<rparr>)
          \<and> (temperatures ! i < 0 \<and> 0 < mass cp \<longrightarrow>
                nextRef ps + i \<in> velocityNotANumber ?ps')"
  proof (intro allI impI)
    fix i assume i: "i < nat n"
    show "location (objects ?ps' (nextRef ps + i)) =
              \<lparr>getX = getX (particleEntryLocation ps) - radius cp,
               getY = getY (particleEntryLocation ps)\<rparr>
          \<and> mass (objects ?ps' (nextRef ps + i)) = mass cp
          \<and> radius (objects ?ps' (nextRef ps + i)) = radius cp
          \<and> (0 \<le> temperatures ! i \<and> 0 < mass cp \<longrightarrow>
                nextRef ps + i \<notin> velocityNotANumber ?ps'
              \<and> magnitude (velocity (objects ?ps' (nextRef ps + i))) =
                  sqrt (3 * BOLTZMANN * temperatures ! i / mass cp)
              \<and> velocity (objects ?ps' (nextRef ps + i)) =
                  \<lparr>getX = sqrt (3 * BOLTZMANN * temperatures ! i / mass cp) *
                            cos (pi - PARTICLE_DISPERSION_ANGLE / 2 + u i * PARTICLE_DISPERSION_ANGLE),
                   getY = sqrt (3 * BOLTZMANN * temperatures ! i / mass cp) *
                            sin (pi - PARTICLE_DISPERSION_ANGLE / 2 + u i * PARTICLE_DISPERSION_ANGLE)\<rparr>)
          \<and> (temperatures ! i < 0 \<and> 0 < mass cp \<longrightarrow>
                nextRef ps + i \<in> velocityNotANumber ?ps')"
      using fields [of i] number [OF i] nan [OF i] unfolding new [OF i] by blast
  qed
  show ?thesis
    using add arr' old each by (intro exI [of _ ?ps']) (simp only: simp_thms)
qed

lemma totalKineticEnergyOf_sum:
  "totalKineticEnergyOf h nan rs =
     (if set rs \<inter> nan = {} then Some (sum_list (map (\<lambda>r. getKineticEnergy (h r)) rs)) else None)"
proof -
  let ?f = "\<lambda>total r. Option.bind total (\<lambda>t. map_option (\<lambda>ke. t + ke) (kineticEnergyOf h nan r))"
  have none: "foldl (\<lambda>total r. Option.bind total (g r)) None rs = None"
    for g :: "ref \<Rightarrow> real \<Rightarrow> real option" and rs
    by (induction rs) simp_all
  have "foldl ?f (Some a) rs =
          (if set rs \<inter> nan = {} then Some (a + sum_list (map (\<lambda>r. getKineticEnergy (h r)) rs))
           else None)" for a
  proof (induction rs arbitrary: a)
    case Nil
    then show ?case by simp
  next
    case (Cons r rs)
    show ?case
    proof (cases "r \<in> nan")
      case True
      then show ?thesis by (simp add: kineticEnergyOf_def none)
    next
      case False
      then have "foldl ?f (Some a) (r # rs) = foldl ?f (Some (a + getKineticEnergy (h r))) rs"
        by (simp add: kineticEnergyOf_def)
      then show ?thesis unfolding Cons.IH using False by (simp add: add.assoc)
    qed
  qed
  from this [of 0] show ?thesis by (simp add: totalKineticEnergyOf_def)
qed

lemma getTotalKineticEnergy_sum:
  "getTotalKineticEnergy ps =
     (if set (heavyParticles ps @ lightParticles ps) \<inter> velocityNotANumber ps = {}
      then Some (sum_list (map (\<lambda>r. getKineticEnergy (objects ps r))
                   (heavyParticles ps @ lightParticles ps)))
      else None)"
  by (auto simp: getTotalKineticEnergy_def totalKineticEnergyOf_sum)

lemma scaleParticles_append:
  "scaleParticles ratio (as @ bs) s = scaleParticles ratio bs (scaleParticles ratio as s)"
  by (induction as arbitrary: s) (simp_all add: Let_def)

lemma scaleArrays_inside:
  "scaleArrays ratio (insideParticleArrays ps) s =
     scaleParticles ratio (heavyParticles ps @ lightParticles ps) s"
  by (simp add: insideParticleArrays_def scaleParticles_append)

lemma scaleParticles_result:
  assumes "distinct rs" and "\<forall>r \<in> set rs. 0 < mass (h r)" and "0 \<le> q"
    and "set rs \<inter> nan = {}"
  shows "scaleParticles (Some q) rs (h, nan) =
           (\<lambda>r. if r \<in> set rs
                 then setVelocityMagnitude (sqrt (2 * (q * getKineticEnergy (h r)) / mass (h r))) (h r)
                 else h r,
            nan)"
  using assms
proof (induction rs arbitrary: h)
  case Nil
  then show ?case by simp
next
  case (Cons r rs)
  let ?f = "\<lambda>p. setVelocityMagnitude (sqrt (2 * (q * getKineticEnergy p) / mass p)) p"
  let ?h = "h(r := ?f (h r))"
  from Cons.prems have r: "r \<notin> set rs" "distinct rs" "0 < mass (h r)" "r \<notin> nan"
    "set rs \<inter> nan = {}"
    by simp_all
  have "0 \<le> q * getKineticEnergy (h r)"
    using Cons.prems(3) getKineticEnergy_nonneg [OF r(3)] by simp
  then have nonneg: "0 \<le> 2 * (q * getKineticEnergy (h r)) / mass (h r)"
    using r(3) by simp
  have step: "scaleParticles (Some q) (r # rs) (h, nan) = scaleParticles (Some q) rs (?h, nan)"
    using nonneg r(3) r(4) by (simp add: Let_def js_div_def js_sqrt_def kineticEnergyOf_def)
  have masses: "\<forall>r' \<in> set rs. 0 < mass (?h r')"
    using Cons.prems(2) r(1) by auto
  have heaps: "(\<lambda>r'. if r' \<in> set rs then ?f (?h r') else ?h r') =
               (\<lambda>r'. if r' \<in> set (r # rs) then ?f (h r') else h r')"
    using r(1) by (intro ext) auto
  have "scaleParticles (Some q) rs (?h, nan) =
          (\<lambda>r'. if r' \<in> set rs then ?f (?h r') else ?h r', nan)"
    by (rule Cons.IH [OF r(2) masses Cons.prems(3) r(5)])
  then show ?case unfolding step heaps .
qed

section \<open>Lemmas about the temperature\<close>

lemma addKineticEnergy_sum:
  "addKineticEnergy h rs a = a + sum_list (map (\<lambda>r. getKineticEnergy (h r)) rs)"
  unfolding addKineticEnergy_def by (induction rs arbitrary: a) (simp_all add: add.assoc)

lemma countInside_result:
  "countInside h b rs s =
     (fst s + length (filter (\<lambda>r. containsPoint b (location (h r))) rs),
      snd s + sum_list (map (\<lambda>r. getKineticEnergy (h r))
                 (filter (\<lambda>r. containsPoint b (location (h r))) rs)))"
  by (induction rs arbitrary: s) (simp_all add: Let_def add.assoc)

lemma update_counts:
  "fst (countInside h (bounds d) (particles2 d)
          (0, snd (countInside h (bounds d) (particles1 d) (0, 0))))
     + fst (countInside h (bounds d) (particles1 d) (0, 0)) = length (particlesInside h d)"
  "snd (countInside h (bounds d) (particles2 d)
          (0, snd (countInside h (bounds d) (particles1 d) (0, 0))))
     = sum_list (map (\<lambda>r. getKineticEnergy (h r)) (particlesInside h d))"
  by (simp_all add: countInside_result particlesInside_def)

section \<open>Lemmas about the pressure gauge\<close>

lemma LinearFunction_clamped:
  assumes "LinearFunction a1 a2 b1 b2 True a3 = Some v"
  shows "min b1 b2 \<le> v \<and> v \<le> max b1 b2"
  using assms
  by (auto simp: LinearFunction_def js_div_def clamp_def Let_def min_def max_def
      split: if_splits)

lemma LinearFunction_defined:
  "a1 \<noteq> a2 \<Longrightarrow> \<exists>v. LinearFunction a1 a2 b1 b2 c a3 = Some v"
  by (simp add: LinearFunction_def js_div_def)

lemma noise_bounds:
  assumes "MAX_PRESSURE g \<noteq> 0"
  shows "\<exists>pn sn. pressureNoiseFunction g p = Some pn \<and> scaleNoiseFunction t = Some sn
            \<and> 0 \<le> pn \<and> 0 \<le> sn"
proof -
  have "0 \<noteq> MAX_PRESSURE g" using assms by simp
  from LinearFunction_defined [OF this, of MAX_NOISE MIN_NOISE True p]
  obtain pn where pn: "pressureNoiseFunction g p = Some pn"
    unfolding pressureNoiseFunction_def by blast
  have "(5::real) \<noteq> 50" by simp
  from LinearFunction_defined [OF this, of 0 1 True t]
  obtain sn where sn: "scaleNoiseFunction t = Some sn"
    unfolding scaleNoiseFunction_def by blast
  from pn have "0 \<le> pn"
    using LinearFunction_clamped [of 0 "MAX_PRESSURE g" MAX_NOISE MIN_NOISE p pn]
    by (simp add: pressureNoiseFunction_def MAX_NOISE_def MIN_NOISE_def)
  moreover from sn have "0 \<le> sn"
    using LinearFunction_clamped [of 5 50 0 1 t sn] by (simp add: scaleNoiseFunction_def)
  ultimately show ?thesis using pn sn by blast
qed

lemma step_never_negative:
  assumes "0 \<le> pressureProperty g" and "0 \<le> pressureKilopascalsProperty g"
    and "MAX_PRESSURE g \<noteq> 0" and "0 < dt" and "0 \<le> nextDouble"
  shows "\<exists>g'. step dt nextDouble nextBoolean g = Inr g' \<and> 0 \<le> pressureKilopascalsProperty g'"
proof -
  let ?g = "g\<lparr>dtAccumulator := dtAccumulator g + dt\<rparr>"
  obtain pn sn where ns: "pressureNoiseFunction g (pressureProperty g) = Some pn"
      "scaleNoiseFunction (toNumber (temperatureProperty g)) = Some sn" "0 \<le> pn" "0 \<le> sn"
    using noise_bounds [OF assms(3)] by blast
  have pnf: "pressureNoiseFunction ?g = pressureNoiseFunction g"
    by (simp add: pressureNoiseFunction_def fun_eq_iff)
  have noise: "0 \<le> pn * sn * nextDouble" using ns(3,4) assms(5) by simp
  show ?thesis
  proof (cases "pn * sn * nextDouble < pressureProperty g")
    case True
    then have "0 \<le> pressureProperty g - pn * sn * nextDouble"
      "0 \<le> pressureProperty g + pn * sn * nextDouble"
      using noise by simp_all
    then show ?thesis
      using assms(1,2,4) ns(1,2) True
      by (auto simp: step_def Let_def pnf setPressureKilopascals_def)
  next
    case False
    have "0 \<le> pressureProperty g + pn * sn * nextDouble" using noise assms(1) by simp
    then show ?thesis
      using assms(1,2,4) ns(1,2) False
      by (auto simp: step_def Let_def pnf setPressureKilopascals_def)
  qed
qed

section \<open>Lemmas about the container\<close>

lemma setWidth_result:
  "setWidth w c = Inr c' \<Longrightarrow>
     c' = c\<lparr>widthProperty := w\<rparr> \<and> contains (widthRange c) w \<and> 0 < volumeProperty c'"
  by (auto simp: setWidth_def Let_def split: if_splits)

lemma setWidth_succeeds:
  "contains (widthRange c) w \<Longrightarrow> 0 < w \<Longrightarrow> setWidth w c = Inr (c\<lparr>widthProperty := w\<rparr>)"
  by (simp add: setWidth_def Let_def volumeProperty_def height_def depth_def)

lemma operation_invariant:
  assumes "operation x c = Inr c'"
    and "contains (widthRange c) (widthProperty c) \<and> 0 < volumeProperty c"
  shows "contains (widthRange c') (widthProperty c') \<and> 0 < volumeProperty c'
           \<and> widthRange c' = widthRange c \<and> containerLocation c' = containerLocation c"
  using assms by (cases x) (auto simp: reset_def dest!: setWidth_result)

lemma operations_invariant:
  assumes "operations xs c = Inr c'"
    and "contains (widthRange c) (widthProperty c) \<and> 0 < volumeProperty c"
  shows "contains (widthRange c') (widthProperty c') \<and> 0 < volumeProperty c'
           \<and> widthRange c' = widthRange c \<and> containerLocation c' = containerLocation c"
  using assms
proof (induction xs arbitrary: c)
  case Nil
  then show ?case by simp
next
  case (Cons x xs)
  from Cons.prems(1) obtain c1 where c1: "operation x c = Inr c1" "operations xs c1 = Inr c'"
    by (auto split: sum.splits)
  from operation_invariant [OF c1(1) Cons.prems(2)]
  have inv1: "contains (widthRange c1) (widthProperty c1) \<and> 0 < volumeProperty c1"
    and same: "widthRange c1 = widthRange c" "containerLocation c1 = containerLocation c"
    by blast+
  from Cons.IH [OF c1(2) inv1] same show ?case by auto
qed

section \<open>Lemmas about collisions with the container\<close>

lemma collideX_inside:
  assumes "0 \<le> radius p" and "2 * radius p \<le> maxX b - minX b"
  shows "minX b \<le> left (fst (collideX b w p)) \<and> right (fst (collideX b w p)) \<le> maxX b
       \<and> radius (fst (collideX b w p)) = radius p
       \<and> getY (location (fst (collideX b w p))) = getY (location p)"
  using assms
  by (auto simp: collideX_def left_def right_def setVelocityXY_def setLocationXY_def)

lemma collideY_inside:
  assumes "0 \<le> radius p" and "2 * radius p \<le> maxY b - minY b"
  shows "minY b \<le> bottom (fst (collideY b p)) \<and> top' (fst (collideY b p)) \<le> maxY b
       \<and> radius (fst (collideY b p)) = radius p
       \<and> getX (location (fst (collideY b p))) = getX (location p)"
  using assms
  by (auto simp: collideY_def bottom_def top'_def setVelocityXY_def setLocationXY_def)

lemma collideParticle_inside:
  assumes "fitsInto b p"
  shows "boundsContainParticle b (fst (collideParticle b w p))
       \<and> radius (fst (collideParticle b w p)) = radius p"
proof -
  let ?q = "fst (collideX b w p)"
  from assms have p: "0 \<le> radius p" "2 * radius p \<le> maxX b - minX b"
    "2 * radius p \<le> maxY b - minY b"
    by (simp_all add: fitsInto_def)
  from collideX_inside [OF p(1,2), of w]
  have x: "minX b \<le> left ?q" "right ?q \<le> maxX b" "radius ?q = radius p" by simp_all
  from x(3) p have q: "0 \<le> radius ?q" "2 * radius ?q \<le> maxY b - minY b" by simp_all
  from collideY_inside [OF q]
  have y: "minY b \<le> bottom (fst (collideY b ?q))" "top' (fst (collideY b ?q)) \<le> maxY b"
    "radius (fst (collideY b ?q)) = radius ?q"
    "getX (location (fst (collideY b ?q))) = getX (location ?q)"
    by simp_all
  have "left (fst (collideY b ?q)) = left ?q" "right (fst (collideY b ?q)) = right ?q"
    using y(3,4) by (simp_all add: left_def right_def)
  then show ?thesis
    using x y by (simp add: collideParticle_def Let_def boundsContainParticle_def)
qed

lemma doParticleContainerCollisions_result:
  assumes "\<forall>r \<in> set rs. fitsInto b (fst s r)"
  shows "(\<forall>r \<in> set rs. boundsContainParticle b (fst (doParticleContainerCollisions rs b w s) r)
                       \<and> radius (fst (doParticleContainerCollisions rs b w s) r) = radius (fst s r))
       \<and> (\<forall>r. r \<notin> set rs \<longrightarrow> fst (doParticleContainerCollisions rs b w s) r = fst s r)"
  using assms
proof (induction rs arbitrary: s)
  case Nil
  then show ?case by simp
next
  case (Cons r rs)
  let ?c = "collideParticle b w (fst s r)"
  let ?s = "((fst s)(r := fst ?c), if snd ?c then snd s + 1 else snd s)"
  have step: "doParticleContainerCollisions (r # rs) b w s = doParticleContainerCollisions rs b w ?s"
    by (simp add: Let_def)
  from Cons.prems have fr: "fitsInto b (fst s r)" by simp
  from collideParticle_inside [OF fr, of w]
  have c: "boundsContainParticle b (fst ?c)" "radius (fst ?c) = radius (fst s r)" by simp_all
  have fits: "\<forall>q \<in> set rs. fitsInto b (fst ?s q)"
    using Cons.prems c(2) fr by (auto simp: fitsInto_def)
  from Cons.IH [OF fits]
  have ih: "\<forall>q \<in> set rs. boundsContainParticle b (fst (doParticleContainerCollisions rs b w ?s) q)
                       \<and> radius (fst (doParticleContainerCollisions rs b w ?s) q) = radius (fst ?s q)"
    "\<forall>q. q \<notin> set rs \<longrightarrow> fst (doParticleContainerCollisions rs b w ?s) q = fst ?s q"
    by blast+
  show ?case
    unfolding step using ih c by (auto split: if_splits)
qed


lemma two_passes:
  assumes disj: "set species1 \<inter> set species2 = {}"
    and f1: "\<forall>r \<in> set species1. fitsInto b1 (h r)"
    and f2: "\<forall>r \<in> set species2. fitsInto b2 (h r)"
  shows "(\<forall>r \<in> set species1. boundsContainParticle b1
            (fst (doParticleContainerCollisions species2 b2 w
                   (doParticleContainerCollisions species1 b1 w (h, 0))) r))
       \<and> (\<forall>r \<in> set species2. boundsContainParticle b2
            (fst (doParticleContainerCollisions species2 b2 w
                   (doParticleContainerCollisions species1 b1 w (h, 0))) r))"
proof -
  let ?s1 = "doParticleContainerCollisions species1 b1 w (h, 0)"
  let ?s2 = "doParticleContainerCollisions species2 b2 w ?s1"
  have f1': "\<forall>r \<in> set species1. fitsInto b1 (fst (h, 0::nat) r)" using f1 by simp
  from doParticleContainerCollisions_result [OF f1', of w]
  have p1: "\<forall>r \<in> set species1. boundsContainParticle b1 (fst ?s1 r)"
    "\<forall>r. r \<notin> set species1 \<longrightarrow> fst ?s1 r = h r"
    by simp_all
  have f2': "\<forall>r \<in> set species2. fitsInto b2 (fst ?s1 r)"
    using f2 p1(2) disj by (metis disjoint_iff)
  from doParticleContainerCollisions_result [OF f2', of w]
  have p2: "\<forall>r \<in> set species2. boundsContainParticle b2 (fst ?s2 r)"
    "\<forall>r. r \<notin> set species2 \<longrightarrow> fst ?s2 r = fst ?s1 r"
    by simp_all
  have "\<forall>r \<in> set species1. fst ?s2 r = fst ?s1 r"
    using p2(2) disj by (metis disjoint_iff)
  with p1(1) p2(1) show ?thesis by simp
qed

section \<open>Population reconciliation\<close>

text \<open>
  Claim C7. Reconciliation is idempotent: when the new target of a species equals the
  number of live particles of that species, \<open>updateNumberOfParticles\<close> adds nothing and
  removes nothing, whatever the old target was: the particle system is returned as it is.
\<close>

theorem updateNumberOfParticles_idempotent:
  "newValue = int (length (getArray arr ps)) \<Longrightarrow>
     updateNumberOfParticles z u newValue oldValue arr createParticle ps = Inr ps"
  by (simp add: updateNumberOfParticles_def)

theorem updateNumberOfParticles_idempotent_witness:
  "(2::int) = int (length (getArray LightParticles ps0)) \<and>
     updateNumberOfParticles (\<lambda>i. 0) (\<lambda>i. 1 / 2) 2 (Some 5) LightParticles LightParticle ps0 = Inr ps0"
proof -
  have h: "(2::int) = int (length (getArray LightParticles ps0))" by (simp add: ps0_def)
  show ?thesis using h updateNumberOfParticles_idempotent [OF h] by simp
qed

text \<open>
  Claim C8. Shrinking the target of a species by \<open>n\<close>, with \<open>n\<close> at most the number of
  live particles: \<open>removeParticles\<close>, and \<open>updateNumberOfParticles\<close> through it, raise no
  assertion, the array that remains is the old array without its last \<open>n\<close> elements (the
  earlier particles, in their order), the \<open>n\<close> last particles are disposed and no other
  object changes. Each particle object occurs once in the array.
\<close>

theorem updateNumberOfParticles_shrink:
  assumes "distinct (getArray arr ps)" and "0 \<le> n" and "n \<le> int (length (getArray arr ps))"
  shows "removeParticles n (objects ps, getArray arr ps) =
           Inr (\<lambda>r. if r \<in> set (drop (length (getArray arr ps) - nat n) (getArray arr ps))
                     then dispose (objects ps r) else objects ps r,
                take (length (getArray arr ps) - nat n) (getArray arr ps))
       \<and> updateNumberOfParticles z u (int (length (getArray arr ps)) - n)
           (Some (int (length (getArray arr ps)))) arr createParticle ps =
           Inr (setArray arr (take (length (getArray arr ps) - nat n) (getArray arr ps))
                 (ps\<lparr>objects := \<lambda>r. if r \<in> set (drop (length (getArray arr ps) - nat n) (getArray arr ps))
                     then dispose (objects ps r) else objects ps r\<rparr>))"
proof -
  let ?a = "getArray arr ps"
  have rem: "removeParticles n (objects ps, ?a) =
           Inr (\<lambda>r. if r \<in> set (drop (length ?a - nat n) ?a) then dispose (objects ps r) else objects ps r,
                take (length ?a - nat n) ?a)"
    by (rule removeParticles_suffix [OF assms])
  show ?thesis
  proof (cases "n = 0")
    case True
    have "(\<lambda>r. objects ps r) = objects ps" by simp
    with True rem show ?thesis
      by (cases arr) (simp_all add: updateNumberOfParticles_def)
  next
    case False
    with assms(2) have pos: "0 < n" by simp
    have len: "int (length (take (length ?a - nat n) ?a)) = int (length ?a) - n"
      using assms(2,3) by simp
    show ?thesis
      using pos rem len by (simp add: updateNumberOfParticles_def Let_def)
  qed
qed

theorem updateNumberOfParticles_shrink_witness:
  "distinct (getArray LightParticles ps0) \<and> (0::int) \<le> 1
     \<and> 1 \<le> int (length (getArray LightParticles ps0))
     \<and> updateNumberOfParticles (\<lambda>i. 0) (\<lambda>i. 1 / 2) 1 (Some 2) LightParticles LightParticle ps0 =
         Inr (ps0\<lparr>lightParticles := [0],
                  objects := \<lambda>r. if r = 1 then dispose LightParticle else LightParticle\<rparr>)"
proof -
  have h: "distinct (getArray LightParticles ps0)" "(0::int) \<le> 1"
    "1 \<le> int (length (getArray LightParticles ps0))"
    by (simp_all add: ps0_def)
  have a: "getArray LightParticles ps0 = [0, 1]" by (simp add: ps0_def)
  have o: "objects ps0 = (\<lambda>r. LightParticle)" by (simp add: ps0_def)
  from updateNumberOfParticles_shrink [OF h, of "\<lambda>i. 0" "\<lambda>i. 1 / 2" LightParticle]
  show ?thesis using h unfolding a o by simp
qed



text \<open>
  Claim C4. When more than one particle is added while particle-particle collisions are
  enabled, the temperatures used for the new particles are the array that
  \<open>getGaussianValues\<close> returns for the mean \<open>T\<close> (the initial temperature), the deviation
  \<open>0.2 T\<close> and the threshold 0.001. Its assertions hold; the draw number \<open>i\<close> is
  \<open>T + 0.2 T z\<^sub>i\<close> for the standard normal deviate \<open>z\<^sub>i\<close>; element \<open>i\<close> of the array is that
  draw shifted by the difference between \<open>T\<close> and the mean of the \<open>n\<close> draws, which is
  \<open>T + 0.2 T (z\<^sub>i - mean z)\<close>; and the mean of the array is exactly \<open>T\<close>. The particle
  number \<open>i\<close> that \<open>addParticles\<close> appends is initialized from element \<open>i\<close>: for a positive
  mass its speed is \<open>sqrt (3 k T\<^sub>i / m)\<close> when \<open>T\<^sub>i\<close> is not negative, and is not a
  number when \<open>T\<^sub>i\<close> is negative.
\<close>

theorem addParticles_gaussian_temperatures:
  assumes "1 < n" and "collisionsEnabledProperty ps"
  shows "\<exists>temperatures ps'.
      getGaussianValues z n (getInitialTemperature ps) (0.2 * getInitialTemperature ps) (1 / 1000)
        = Inr temperatures
    \<and> length temperatures = nat n
    \<and> (\<forall>i < nat n.
          boxMullerTransform (getInitialTemperature ps) (0.2 * getInitialTemperature ps) (z i)
            = getInitialTemperature ps + 0.2 * getInitialTemperature ps * z i
        \<and> temperatures ! i =
            (getInitialTemperature ps + 0.2 * getInitialTemperature ps * z i) +
            (getInitialTemperature ps -
             (\<Sum>j < nat n. getInitialTemperature ps + 0.2 * getInitialTemperature ps * z j)
               / real_of_int n)
        \<and> temperatures ! i =
            getInitialTemperature ps + 0.2 * getInitialTemperature ps *
              (z i - (\<Sum>j < nat n. z j) / real_of_int n))
    \<and> sum_list temperatures / real_of_int n = getInitialTemperature ps
    \<and> addParticles z u n arr createParticle ps = Inr ps'
    \<and> getArray arr ps' = getArray arr ps @ [nextRef ps ..< nextRef ps + nat n]
    \<and> (\<forall>i < nat n.
          (0 \<le> temperatures ! i \<and> 0 < mass createParticle \<longrightarrow>
             nextRef ps + i \<notin> velocityNotANumber ps'
           \<and> magnitude (velocity (objects ps' (nextRef ps + i))) =
               sqrt (3 * BOLTZMANN * temperatures ! i / mass createParticle))
        \<and> (temperatures ! i < 0 \<and> 0 < mass createParticle \<longrightarrow>
             nextRef ps + i \<in> velocityNotANumber ps'))"
proof -
  let ?T = "getInitialTemperature ps"
  let ?temps = "map (\<lambda>i. ?T + 0.2 * ?T * (z i - (\<Sum>j < nat n. z j) / real_of_int n)) [0 ..< nat n]"
  have n: "0 < n" "n \<noteq> 1" using assms(1) by simp_all
  have bm: "boxMullerTransform ?T (0.2 * ?T) v = ?T + 0.2 * ?T * v" for v
    by (simp add: boxMullerTransform_def)
  have gauss: "getGaussianValues z n ?T (0.2 * ?T) (1 / 1000) = Inr ?temps"
    unfolding gaussian_explicit [OF n(1), symmetric]
    by (rule getGaussianValues_result [OF n(1)]) simp
  have len: "length ?temps = nat n" by simp
  have nth: "?temps ! i = ?T + 0.2 * ?T * (z i - (\<Sum>j < nat n. z j) / real_of_int n)"
    if "i < nat n" for i
    using that by simp
  have shifted: "?T + 0.2 * ?T * (z i - (\<Sum>j < nat n. z j) / real_of_int n) =
            (?T + 0.2 * ?T * z i) + (?T - (\<Sum>j < nat n. ?T + 0.2 * ?T * z j) / real_of_int n)" for i
    using gaussian_explicit [OF n(1), of ?T z i] unfolding bm by simp
  have mean: "sum_list ?temps / real_of_int n = ?T"
    unfolding gaussian_explicit [OF n(1), symmetric] by (rule gaussian_mean [OF n(1)])
  have temps: "?temps =
      (if n \<noteq> 1 \<and> collisionsEnabledProperty ps
       then map (\<lambda>i. ?T + 0.2 * ?T * (z i - (\<Sum>j < nat n. z j) / real_of_int n)) [0 ..< nat n]
       else replicate (nat n) ?T)"
    using n(2) assms(2) by simp
  from addParticles_particles [OF n(1) temps, of u arr createParticle]
  obtain ps' where add: "addParticles z u n arr createParticle ps = Inr ps'"
    and arr': "getArray arr ps' = getArray arr ps @ [nextRef ps ..< nextRef ps + nat n]"
    and each: "\<forall>i < nat n.
          (0 \<le> ?temps ! i \<and> 0 < mass createParticle \<longrightarrow>
             nextRef ps + i \<notin> velocityNotANumber ps'
           \<and> magnitude (velocity (objects ps' (nextRef ps + i))) =
               sqrt (3 * BOLTZMANN * ?temps ! i / mass createParticle))
        \<and> (?temps ! i < 0 \<and> 0 < mass createParticle \<longrightarrow>
             nextRef ps + i \<in> velocityNotANumber ps')"
    by blast
  have elements: "\<forall>i < nat n.
          boxMullerTransform ?T (0.2 * ?T) (z i) = ?T + 0.2 * ?T * z i
        \<and> ?temps ! i =
            (?T + 0.2 * ?T * z i) + (?T - (\<Sum>j < nat n. ?T + 0.2 * ?T * z j) / real_of_int n)
        \<and> ?temps ! i = ?T + 0.2 * ?T * (z i - (\<Sum>j < nat n. z j) / real_of_int n)"
    using bm nth shifted by simp
  show ?thesis
    using gauss len elements mean add arr' each
    by (intro exI [of _ ?temps] exI [of _ ps']) (simp only: simp_thms)
qed

theorem addParticles_gaussian_temperatures_witness:
  "(1::int) < 3 \<and> collisionsEnabledProperty ps2
     \<and> (\<exists>temperatures ps'.
          getGaussianValues draws 3 300 (0.2 * 300) (1 / 1000) = Inr temperatures
        \<and> temperatures = [- 24, 462, 462]
        \<and> sum_list temperatures / 3 = 300
        \<and> addParticles draws (\<lambda>i. 1 / 2) 3 LightParticles LightParticle ps2 = Inr ps'
        \<and> getArray LightParticles ps' = [0, 1, 2, 3, 4]
        \<and> 2 \<in> velocityNotANumber ps'
        \<and> 4 \<notin> velocityNotANumber ps'
        \<and> magnitude (velocity (objects ps' 4)) = sqrt (3 * 8316 * 462 / 4))"
proof -
  have h: "(1::int) < 3" "collisionsEnabledProperty ps2"
    by (simp_all add: ps2_def)
  have c: "getInitialTemperature ps2 = 300" "nextRef ps2 = 2" "mass LightParticle = 4"
    "getArray LightParticles ps2 = [0, 1]"
    by (simp_all add: ps2_def ps0_def LightParticle_def newParticle_def)
  have sum: "(\<Sum>j < nat 3. draws j) = - 6.6"
    by (simp add: draws_def numeral_3_eq_3 lessThan_Suc)
  from addParticles_gaussian_temperatures [OF h, of draws "\<lambda>i. 1 / 2" LightParticles LightParticle]
  obtain temperatures ps' where
    g: "getGaussianValues draws 3 300 (0.2 * 300) (1 / 1000) = Inr temperatures"
    and len: "length temperatures = nat 3"
    and el: "\<forall>i < nat 3. temperatures ! i = 300 + 0.2 * 300 * (draws i - (\<Sum>j < nat 3. draws j) / real_of_int 3)"
    and mean: "sum_list temperatures / real_of_int 3 = 300"
    and add: "addParticles draws (\<lambda>i. 1 / 2) 3 LightParticles LightParticle ps2 = Inr ps'"
    and arr: "getArray LightParticles ps' = [0, 1] @ [2 ..< 2 + nat 3]"
    and each: "\<forall>i < nat 3.
          (0 \<le> temperatures ! i \<and> 0 < (4::real) \<longrightarrow>
             2 + i \<notin> velocityNotANumber ps'
           \<and> magnitude (velocity (objects ps' (2 + i))) =
               sqrt (3 * BOLTZMANN * temperatures ! i / 4))
        \<and> (temperatures ! i < 0 \<and> 0 < (4::real) \<longrightarrow> 2 + i \<in> velocityNotANumber ps')"
    unfolding c by blast
  have i: "(0::nat) < nat 3" "(1::nat) < nat 3" "(2::nat) < nat 3" by simp_all
  from el i have t: "temperatures ! 0 = - 24" "temperatures ! 1 = 462" "temperatures ! 2 = 462"
    unfolding sum by (simp_all add: draws_def)
  have "temperatures ! j = [- 24, 462, 462] ! j" if "j < 3" for j
  proof -
    from that have "j = 0 \<or> j = 1 \<or> j = 2" by arith
    then show ?thesis using t by auto
  qed
  then have temps: "temperatures = [- 24, 462, 462]"
    using len by (intro nth_equalityI) simp_all
  from each i(1) t(1) have m2: "2 \<in> velocityNotANumber ps'" by fastforce
  from each i(3) t(3) have m4: "4 \<notin> velocityNotANumber ps'"
    "magnitude (velocity (objects ps' 4)) = sqrt (3 * 8316 * 462 / 4)"
    by (fastforce simp: BOLTZMANN_def)+
  have arr': "getArray LightParticles ps' = [0, 1, 2, 3, 4]"
    using arr by (simp add: upt_rec)
  have mean': "sum_list temperatures / 3 = 300" using mean by simp
  show ?thesis using h g temps mean' add arr' m2 m4 by blast
qed

section \<open>Holding the temperature\<close>

text \<open>
  Claim C3. For a particle system that is not empty, whose particles all have a velocity
  that is a number and whose total kinetic energy, the sum of the kinetic energies of
  its particles, is positive, \<open>setTemperature T\<close> produces no value that is not a number
  and leaves the arrays as they are. Afterwards the temperature recomputed from the
  particles, \<open>(2/3) (sum of the kinetic energies / N) / k\<close> for the \<open>N\<close> particles of the
  system, is exactly \<open>T\<close>, and \<open>getAverageKineticEnergy\<close> returns that average. \<open>T\<close> is a
  temperature in K, so not negative; the particles are distinct objects with positive
  masses.
\<close>

theorem setTemperature_reaches_target:
  assumes nonempty: "heavyParticles ps @ lightParticles ps \<noteq> []"
    and numbers: "set (heavyParticles ps @ lightParticles ps) \<inter> velocityNotANumber ps = {}"
    and energy: "0 < sum_list (map (\<lambda>r. getKineticEnergy (objects ps r))
                         (heavyParticles ps @ lightParticles ps))"
    and target: "0 \<le> T"
    and objs: "distinct (heavyParticles ps @ lightParticles ps)"
    and masses: "\<forall>r \<in> set (heavyParticles ps @ lightParticles ps). 0 < mass (objects ps r)"
  shows "\<exists>ps' averageKE. setTemperature T ps = ps'
           \<and> heavyParticles ps' = heavyParticles ps \<and> lightParticles ps' = lightParticles ps
           \<and> set (heavyParticles ps @ lightParticles ps) \<inter> velocityNotANumber ps' = {}
           \<and> (2 / 3) *
               (sum_list (map (\<lambda>r. getKineticEnergy (objects ps' r))
                            (heavyParticles ps @ lightParticles ps))
                / real (length (heavyParticles ps @ lightParticles ps)))
               / BOLTZMANN = T
           \<and> getAverageKineticEnergy ps' = Some averageKE
           \<and> (2 / 3) * averageKE / BOLTZMANN = T"
proof -
  let ?rs = "heavyParticles ps @ lightParticles ps"
  define N where "N = real (length ?rs)"
  define E where "E = sum_list (map (\<lambda>r. getKineticEnergy (objects ps r)) ?rs)"
  define q where "q = (3 / 2) * T * BOLTZMANN / (E / N)"
  define h where "h = (\<lambda>r. if r \<in> set ?rs
      then setVelocityMagnitude (sqrt (2 * (q * getKineticEnergy (objects ps r)) / mass (objects ps r)))
             (objects ps r)
      else objects ps r)"
  have "0 < length ?rs" using nonempty by simp
  then have N: "0 < N" unfolding N_def by (simp only: of_nat_0_less_iff)
  have count: "real_of_int (numberOfParticlesProperty ps) = N"
    by (simp add: numberOfParticlesProperty_def N_def)
  have E: "0 < E" using energy by (simp only: E_def)
  have total: "getTotalKineticEnergy ps = Some E"
    unfolding getTotalKineticEnergy_sum E_def using numbers by simp
  have avg: "getAverageKineticEnergy ps = Some (E / N)"
    unfolding getAverageKineticEnergy_def total count using N by (simp add: js_div_def)
  have avg_pos: "0 < E / N" using E N by simp
  have "0 \<le> (3 / 2) * T * BOLTZMANN" using target by (simp add: BOLTZMANN_def)
  then have q: "0 \<le> q" unfolding q_def using avg_pos by (rule divide_nonneg_pos)
  have ratio: "Option.bind (getAverageKineticEnergy ps) (js_div ((3 / 2) * T * BOLTZMANN)) = Some q"
    using E N unfolding avg by (simp add: js_div_def q_def)
  have scaled: "scaleArrays (Some q) (insideParticleArrays ps) (objects ps, velocityNotANumber ps)
                  = (h, velocityNotANumber ps)"
    unfolding scaleArrays_inside h_def by (rule scaleParticles_result [OF objs masses q numbers])
  have set: "setTemperature T ps = ps\<lparr>objects := h\<rparr>"
    unfolding setTemperature_def Let_def ratio scaled by simp
  have each: "getKineticEnergy (h r) = q * getKineticEnergy (objects ps r)" if "r \<in> set ?rs" for r
  proof -
    from that masses have "0 < mass (objects ps r)" by blast
    from scaled_energy [OF this q] that show ?thesis unfolding h_def by (simp only: if_True)
  qed
  have "map (\<lambda>r. getKineticEnergy (h r)) ?rs = map (\<lambda>r. q * getKineticEnergy (objects ps r)) ?rs"
    by (rule map_cong [OF refl]) (rule each)
  then have "sum_list (map (\<lambda>r. getKineticEnergy (h r)) ?rs) =
      sum_list (map (\<lambda>r. q * getKineticEnergy (objects ps r)) ?rs)"
    by (simp only:)
  also have "\<dots> = q * E"
    unfolding E_def by (simp only: sum_list_const_mult)
  finally have sum: "sum_list (map (\<lambda>r. getKineticEnergy (h r)) ?rs) = q * E" .
  have "getTotalKineticEnergy (ps\<lparr>objects := h\<rparr>) = Some (sum_list (map (\<lambda>r. getKineticEnergy (h r)) ?rs))"
    using numbers getTotalKineticEnergy_sum [of "ps\<lparr>objects := h\<rparr>"] by simp
  then have total': "getTotalKineticEnergy (ps\<lparr>objects := h\<rparr>) = Some (q * E)"
    unfolding sum .
  have count': "real_of_int (numberOfParticlesProperty (ps\<lparr>objects := h\<rparr>)) = N"
    by (simp add: numberOfParticlesProperty_def N_def)
  have avg': "getAverageKineticEnergy (ps\<lparr>objects := h\<rparr>) = Some (q * E / N)"
    unfolding getAverageKineticEnergy_def total' count' using N by (simp add: js_div_def)
  have "q * E / N = (3 / 2) * T * BOLTZMANN"
    using E N by (simp add: q_def field_simps)
  then have temp: "(2 / 3) * (q * E / N) / BOLTZMANN = T"
    by (simp add: BOLTZMANN_def)
  have "objects (ps\<lparr>objects := h\<rparr>) = h" by simp
  then have explicit: "(2 / 3) * (sum_list (map (\<lambda>r. getKineticEnergy (objects (ps\<lparr>objects := h\<rparr>) r)) ?rs)
                     / real (length ?rs)) / BOLTZMANN = T"
    using temp unfolding sum [symmetric] N_def by (simp only:)
  have arrays: "heavyParticles (ps\<lparr>objects := h\<rparr>) = heavyParticles ps"
    "lightParticles (ps\<lparr>objects := h\<rparr>) = lightParticles ps"
    by simp_all
  have numbers': "set ?rs \<inter> velocityNotANumber (ps\<lparr>objects := h\<rparr>) = {}"
    using numbers by simp
  show ?thesis
    using set arrays numbers' explicit avg' temp
    by (intro exI [of _ "ps\<lparr>objects := h\<rparr>"] exI [of _ "q * E / N"]) (simp only: simp_thms)
qed

theorem setTemperature_reaches_target_witness:
  "heavyParticles ps1 @ lightParticles ps1 \<noteq> []
     \<and> set (heavyParticles ps1 @ lightParticles ps1) \<inter> velocityNotANumber ps1 = {}
     \<and> getKineticEnergy (objects ps1 0) = 50 \<and> getKineticEnergy (objects ps1 1) = 50
     \<and> (0::real) \<le> 300
     \<and> distinct (heavyParticles ps1 @ lightParticles ps1)
     \<and> 0 < mass (objects ps1 0) \<and> 0 < mass (objects ps1 1)
     \<and> (\<exists>ps'. setTemperature 300 ps1 = ps'
           \<and> lightParticles ps' = [0, 1]
           \<and> 0 \<notin> velocityNotANumber ps' \<and> 1 \<notin> velocityNotANumber ps'
           \<and> (2 / 3) * ((getKineticEnergy (objects ps' 0) + getKineticEnergy (objects ps' 1)) / 2)
               / BOLTZMANN = 300)"
proof -
  have arr: "heavyParticles ps1 = []" "lightParticles ps1 = [0, 1]"
    by (simp_all add: ps1_def ps0_def)
  have ke: "getKineticEnergy (objects ps1 0) = 50" "getKineticEnergy (objects ps1 1) = 50"
    by (simp_all add: ps1_def ps0_def getKineticEnergy_def magnitudeSquared_def setVelocityXY_def
        LightParticle_def newParticle_def)
  have m: "0 < mass (objects ps1 0)" "0 < mass (objects ps1 1)"
    by (simp_all add: ps1_def ps0_def setVelocityXY_def LightParticle_def newParticle_def)
  have h: "heavyParticles ps1 @ lightParticles ps1 \<noteq> []"
    "set (heavyParticles ps1 @ lightParticles ps1) \<inter> velocityNotANumber ps1 = {}"
    "0 < sum_list (map (\<lambda>r. getKineticEnergy (objects ps1 r)) (heavyParticles ps1 @ lightParticles ps1))"
    "(0::real) \<le> 300" "distinct (heavyParticles ps1 @ lightParticles ps1)"
    "\<forall>r \<in> set (heavyParticles ps1 @ lightParticles ps1). 0 < mass (objects ps1 r)"
    unfolding arr using ke m by (simp_all add: ps1_def ps0_def)
  from setTemperature_reaches_target [OF h]
  obtain ps' where s: "setTemperature 300 ps1 = ps'"
    and l: "lightParticles ps' = [0, 1]"
    and v: "set ([] @ [0, 1]) \<inter> velocityNotANumber ps' = {}"
    and t: "(2 / 3) * (sum_list (map (\<lambda>r. getKineticEnergy (objects ps' r)) ([] @ [0, 1]))
              / real (length ([] @ [0::nat, 1]))) / BOLTZMANN = 300"
    unfolding arr by blast
  from t have t': "(2 / 3) * ((getKineticEnergy (objects ps' 0) + getKineticEnergy (objects ps' 1)) / 2)
               / BOLTZMANN = 300"
    by simp
  from v have v': "0 \<notin> velocityNotANumber ps'" "1 \<notin> velocityNotANumber ps'" by auto
  show ?thesis using h(1,2,4,5) ke m s l v' t' by blast
qed

section \<open>Temperature\<close>

text \<open>
  Claim C1. The derived temperature. In \<open>IdealModel.updateTemperature\<close>: with no
  particle inside the container the thermometer gets no reading (\<open>null\<close>), and with
  \<open>N > 0\<close> particles it gets \<open>(2/3)\<close> times the average kinetic energy of the heavy and
  light particles, divided by \<open>k\<close>. In \<open>DiffusionData.update\<close>, for the particles inside
  the bounds of the side: with none of them the average temperature is \<open>null\<close>, and with
  \<open>N > 0\<close> of them, of positive total kinetic energy as the function asserts, it is the
  same expression.
\<close>

theorem temperature_derivation:
  "(length (heavyParticles_im m) + length (lightParticles_im m) = 0 \<longrightarrow>
      temperatureKelvinProperty (updateTemperature m) = None)
   \<and> (0 < length (heavyParticles_im m) + length (lightParticles_im m) \<longrightarrow>
      temperatureKelvinProperty (updateTemperature m) =
        Some ((2 / 3) *
              (sum_list (map (\<lambda>r. getKineticEnergy (objects_im m r))
                          (heavyParticles_im m @ lightParticles_im m))
               / real (length (heavyParticles_im m) + length (lightParticles_im m)))
              / BOLTZMANN))
   \<and> (length (particlesInside h d) = 0 \<longrightarrow>
      (\<exists>d'. update h d = Inr d' \<and> averageTemperatureProperty d' = None))
   \<and> (0 < length (particlesInside h d)
        \<and> 0 < sum_list (map (\<lambda>r. getKineticEnergy (h r)) (particlesInside h d)) \<longrightarrow>
      (\<exists>d'. update h d = Inr d' \<and> averageTemperatureProperty d' =
        Some ((2 / 3) *
              (sum_list (map (\<lambda>r. getKineticEnergy (h r)) (particlesInside h d))
               / real (length (particlesInside h d)))
              / BOLTZMANN)))"
proof (intro conjI impI)
  assume "length (heavyParticles_im m) + length (lightParticles_im m) = 0"
  then show "temperatureKelvinProperty (updateTemperature m) = None"
    by (simp add: updateTemperature_def)
next
  assume "0 < length (heavyParticles_im m) + length (lightParticles_im m)"
  then show "temperatureKelvinProperty (updateTemperature m) =
        Some ((2 / 3) *
              (sum_list (map (\<lambda>r. getKineticEnergy (objects_im m r))
                          (heavyParticles_im m @ lightParticles_im m))
               / real (length (heavyParticles_im m) + length (lightParticles_im m)))
              / BOLTZMANN)"
    by (auto simp: updateTemperature_def Let_def addKineticEnergy_sum)
next
  let ?s1 = "countInside h (bounds d) (particles1 d) (0, 0)"
  let ?s2 = "countInside h (bounds d) (particles2 d) (0, snd ?s1)"
  assume "length (particlesInside h d) = 0"
  then have "fst ?s1 + fst ?s2 = 0" using update_counts(1) [of h d] by simp
  then show "\<exists>d'. update h d = Inr d' \<and> averageTemperatureProperty d' = None"
    by (simp add: update_def Let_def)
next
  let ?s1 = "countInside h (bounds d) (particles1 d) (0, 0)"
  let ?s2 = "countInside h (bounds d) (particles2 d) (0, snd ?s1)"
  let ?E = "sum_list (map (\<lambda>r. getKineticEnergy (h r)) (particlesInside h d))"
  let ?N = "length (particlesInside h d)"
  assume a: "0 < ?N \<and> 0 < ?E"
  have n: "fst ?s1 + fst ?s2 = ?N" using update_counts(1) [of h d] by simp
  have e: "snd ?s2 = ?E" by (rule update_counts(2))
  have "0 < ?E / real ?N" using a by simp
  then have pos: "0 < (2 / 3) * (?E / real ?N) / BOLTZMANN" by (simp add: BOLTZMANN_def)
  have "update h d = Inr (d\<lparr>numberOfParticles1Property := fst ?s1,
          numberOfParticles2Property := fst ?s2,
          averageTemperatureProperty := Some ((2 / 3) * (?E / real ?N) / BOLTZMANN)\<rparr>)"
    unfolding update_def Let_def n e using a pos by simp
  then show "\<exists>d'. update h d = Inr d' \<and> averageTemperatureProperty d' =
        Some ((2 / 3) * (?E / real ?N) / BOLTZMANN)"
    by simp
qed

theorem temperature_derivation_witness:
  "temperatureKelvinProperty (updateTemperature im0) = None
   \<and> temperatureKelvinProperty (updateTemperature im1) = Some ((2 / 3) * ((50 + 50) / 2) / BOLTZMANN)
   \<and> (\<exists>d'. update (objects_im im1) dd1 = Inr d'
         \<and> averageTemperatureProperty d' = Some ((2 / 3) * ((50 + 50) / 2) / BOLTZMANN))"
proof -
  have ke: "getKineticEnergy (setVelocityXY 3 4 LightParticle) = 50"
    by (simp add: getKineticEnergy_def magnitudeSquared_def setVelocityXY_def LightParticle_def
        newParticle_def)
  have ins: "particlesInside (\<lambda>r. setVelocityXY 3 4 LightParticle) dd1 = [0, 1]"
    by (simp add: particlesInside_def dd1_def containsPoint_def setVelocityXY_def
        LightParticle_def newParticle_def)
  have o: "objects_im im1 = (\<lambda>r. setVelocityXY 3 4 LightParticle)" by (simp add: im1_def)
  have a0: "length (heavyParticles_im im0) + length (lightParticles_im im0) = 0"
    by (simp add: im0_def)
  have a1: "0 < length (heavyParticles_im im1) + length (lightParticles_im im1)"
    by (simp add: im1_def)
  have a2: "0 < length (particlesInside (objects_im im1) dd1)
        \<and> 0 < sum_list (map (\<lambda>r. getKineticEnergy (objects_im im1 r)) (particlesInside (objects_im im1) dd1))"
    unfolding o ins by (simp add: ke)
  have t0: "temperatureKelvinProperty (updateTemperature im0) = None"
    using temperature_derivation [of im0] a0 by blast
  have t1: "temperatureKelvinProperty (updateTemperature im1) = Some ((2 / 3) * ((50 + 50) / 2) / BOLTZMANN)"
    using temperature_derivation [of im1] a1 by (simp add: im1_def ke)
  have t2: "\<exists>d'. update (objects_im im1) dd1 = Inr d'
         \<and> averageTemperatureProperty d' = Some ((2 / 3) * ((50 + 50) / 2) / BOLTZMANN)"
    using temperature_derivation [of im1 "objects_im im1" dd1] a2 unfolding o ins by (simp add: ke)
  show ?thesis using t0 t1 t2 by blast
qed

section \<open>Pressure gauge\<close>

text \<open>
  Claim C10. The displayed value \<open>pressureKilopascalsProperty\<close> is never negative, for a
  pressure that is not negative: the gauge is constructed with the pressure as its first
  value, the listener of the pressure only ever sets it to zero, and \<open>step\<close> stores the
  pressure plus a noise that is made negative only when it is smaller than the pressure,
  so that the validation of the Property accepts every value stored. The random number
  is not negative and \<open>MAX_PRESSURE\<close> is not zero.
\<close>

theorem gauge_never_negative:
  "(0 \<le> pressure \<longrightarrow>
      (\<exists>g'. newPressureGauge maxPressure pressure temperature hold noiseOption = Inr g'
            \<and> 0 \<le> pressureKilopascalsProperty g'))
   \<and> (0 \<le> pressureKilopascalsProperty g \<longrightarrow>
      (\<exists>g'. setPressure pressure g = Inr g' \<and> 0 \<le> pressureKilopascalsProperty g'))
   \<and> (0 \<le> pressureProperty g \<and> 0 \<le> pressureKilopascalsProperty g \<and> MAX_PRESSURE g \<noteq> 0
        \<and> 0 < dt \<and> 0 \<le> nextDouble \<longrightarrow>
      (\<exists>g'. step dt nextDouble nextBoolean g = Inr g' \<and> 0 \<le> pressureKilopascalsProperty g'))"
proof (intro conjI impI)
  assume "0 \<le> pressure"
  then show "\<exists>g'. newPressureGauge maxPressure pressure temperature hold noiseOption = Inr g'
            \<and> 0 \<le> pressureKilopascalsProperty g'"
    by (simp add: newPressureGauge_def setPressureKilopascals_def pressureListener_def
        MIN_NOISE_def MAX_NOISE_def)
next
  assume "0 \<le> pressureKilopascalsProperty g"
  then show "\<exists>g'. setPressure pressure g = Inr g' \<and> 0 \<le> pressureKilopascalsProperty g'"
    by (simp add: setPressure_def setPressureKilopascals_def pressureListener_def)
next
  assume "0 \<le> pressureProperty g \<and> 0 \<le> pressureKilopascalsProperty g \<and> MAX_PRESSURE g \<noteq> 0
        \<and> 0 < dt \<and> 0 \<le> nextDouble"
  then show "\<exists>g'. step dt nextDouble nextBoolean g = Inr g' \<and> 0 \<le> pressureKilopascalsProperty g'"
    using step_never_negative by blast
qed

theorem gauge_never_negative_witness:
  "(0::real) \<le> 100 \<and> 0 \<le> pressureProperty gauge2 \<and> 0 \<le> pressureKilopascalsProperty gauge2
   \<and> MAX_PRESSURE gauge2 \<noteq> 0 \<and> (0::real) < 1 \<and> (0::real) \<le> 1 / 2
   \<and> (\<exists>g'. newPressureGauge 20000 100 (Some 300) NOTHING True = Inr g'
          \<and> 0 \<le> pressureKilopascalsProperty g')
   \<and> (\<exists>g'. setPressure 100 gauge2 = Inr g' \<and> 0 \<le> pressureKilopascalsProperty g')
   \<and> (\<exists>g'. step 1 (1 / 2) False gauge2 = Inr g' \<and> 0 \<le> pressureKilopascalsProperty g')"
proof -
  have h: "(0::real) \<le> 100" "0 \<le> pressureProperty gauge2" "0 \<le> pressureKilopascalsProperty gauge2"
    "MAX_PRESSURE gauge2 \<noteq> 0" "(0::real) < 1" "(0::real) \<le> 1 / 2"
    by (simp_all add: gauge2_def gauge0_def)
  from gauge_never_negative [where pressure = 100 and maxPressure = 20000
      and temperature = "Some 300" and hold = NOTHING and noiseOption = True and g = gauge2
      and dt = 1 and nextDouble = "1 / 2" and nextBoolean = False]
  show ?thesis using h by blast
qed

text \<open>
  Claim C5, as stated, fails: a gauge whose pressure is zero while the container holds
  particles at 300 K displays 25 kPa after a refresh with the random number 1/2 (the noise
  is added, since it is not smaller than the pressure). When the container is then
  emptied the derived pressure is zero, as it was: \<open>pressureProperty\<close> does not change,
  its listener is not called, and the gauge goes on displaying 25 kPa.
\<close>

theorem gauge_zero_counterexample:
  "step 1 (1 / 2) True gauge0 = Inr gauge1
   \<and> derivePressure 0 12 1 1 = 0
   \<and> setPressure (derivePressure 0 12 1 1) (gauge1\<lparr>temperatureProperty := None\<rparr>)
       = Inr (gauge1\<lparr>temperatureProperty := None\<rparr>)
   \<and> pressureKilopascalsProperty (gauge1\<lparr>temperatureProperty := None\<rparr>) = 25"
  by (simp add: step_def gauge1_def gauge0_def Let_def REFRESH_PERIOD_def pressureNoiseFunction_def
      scaleNoiseFunction_def LinearFunction_def js_div_def clamp_def toNumber_def MAX_NOISE_def
      MIN_NOISE_def setPressureKilopascals_def derivePressure_def setPressure_def)

text \<open>
  Claim C5, amended. For an empty container the derived pressure is zero whatever momentum
  has been accumulated. When the pressure changes to zero the displayed value is set to
  zero at once, without a refresh (the accumulated time is not consulted and not changed),
  and a gauge constructed at pressure zero displays zero. When the pressure was zero
  already, the displayed value stays until the next refresh, which sets it to zero when
  the temperature has no reading.
\<close>

theorem gauge_zero_pressure:
  "derivePressure 0 momentum window conversion = 0
   \<and> (pressureProperty g \<noteq> 0 \<longrightarrow>
        setPressure 0 g = Inr (g\<lparr>pressureProperty := 0, pressureKilopascalsProperty := 0\<rparr>))
   \<and> newPressureGauge maxPressure 0 temperature hold noiseOption =
        Inr \<lparr>MAX_PRESSURE = maxPressure, pressureProperty = 0,
             temperatureProperty = temperature, holdConstantProperty = hold,
             pressureNoiseProperty = noiseOption, pressureKilopascalsProperty = 0,
             unitsProperty = ATMOSPHERES, dtAccumulator = 0\<rparr>
   \<and> (pressureProperty g = 0 \<and> temperatureProperty g = None \<and> MAX_PRESSURE g \<noteq> 0 \<and> 0 < dt
        \<and> REFRESH_PERIOD \<le> dtAccumulator g + dt \<longrightarrow>
        step dt nextDouble nextBoolean g = Inr (g\<lparr>pressureKilopascalsProperty := 0, dtAccumulator := 0\<rparr>))"
proof (intro conjI impI)
  show "derivePressure 0 momentum window conversion = 0" by (simp add: derivePressure_def)
next
  assume "pressureProperty g \<noteq> 0"
  then show "setPressure 0 g = Inr (g\<lparr>pressureProperty := 0, pressureKilopascalsProperty := 0\<rparr>)"
    by (simp add: setPressure_def pressureListener_def setPressureKilopascals_def)
next
  show "newPressureGauge maxPressure 0 temperature hold noiseOption =
        Inr \<lparr>MAX_PRESSURE = maxPressure, pressureProperty = 0,
             temperatureProperty = temperature, holdConstantProperty = hold,
             pressureNoiseProperty = noiseOption, pressureKilopascalsProperty = 0,
             unitsProperty = ATMOSPHERES, dtAccumulator = 0\<rparr>"
    by (simp add: newPressureGauge_def setPressureKilopascals_def pressureListener_def
        MIN_NOISE_def MAX_NOISE_def)
next
  assume a: "pressureProperty g = 0 \<and> temperatureProperty g = None \<and> MAX_PRESSURE g \<noteq> 0 \<and> 0 < dt
        \<and> REFRESH_PERIOD \<le> dtAccumulator g + dt"
  have scale: "scaleNoiseFunction (toNumber None) = Some 0"
    by (simp add: scaleNoiseFunction_def LinearFunction_def js_div_def clamp_def toNumber_def)
  have "0 \<noteq> MAX_PRESSURE g" using a by simp
  from LinearFunction_defined [OF this, of MAX_NOISE MIN_NOISE True 0]
  obtain pn where pn: "pressureNoiseFunction (g\<lparr>dtAccumulator := dtAccumulator g + dt\<rparr>) 0 = Some pn"
    unfolding pressureNoiseFunction_def by auto
  show "step dt nextDouble nextBoolean g = Inr (g\<lparr>pressureKilopascalsProperty := 0, dtAccumulator := 0\<rparr>)"
    using a pn scale by (simp add: step_def Let_def setPressureKilopascals_def)
qed

theorem gauge_zero_pressure_witness:
  "pressureProperty gauge2 \<noteq> 0
   \<and> setPressure 0 gauge2 = Inr (gauge2\<lparr>pressureProperty := 0, pressureKilopascalsProperty := 0\<rparr>)
   \<and> step 1 (1 / 2) True (gauge1\<lparr>temperatureProperty := None\<rparr>)
       = Inr (gauge1\<lparr>temperatureProperty := None, pressureKilopascalsProperty := 0, dtAccumulator := 0\<rparr>)"
proof -
  have h: "pressureProperty gauge2 \<noteq> 0" by (simp add: gauge2_def gauge0_def)
  have k: "pressureProperty (gauge1\<lparr>temperatureProperty := None\<rparr>) = 0
        \<and> temperatureProperty (gauge1\<lparr>temperatureProperty := None\<rparr>) = None
        \<and> MAX_PRESSURE (gauge1\<lparr>temperatureProperty := None\<rparr>) \<noteq> 0 \<and> (0::real) < 1
        \<and> REFRESH_PERIOD \<le> dtAccumulator (gauge1\<lparr>temperatureProperty := None\<rparr>) + 1"
    by (simp add: gauge1_def gauge0_def REFRESH_PERIOD_def)
  from gauge_zero_pressure [where g = gauge2]
  have a: "setPressure 0 gauge2 = Inr (gauge2\<lparr>pressureProperty := 0, pressureKilopascalsProperty := 0\<rparr>)"
    using h by blast
  from gauge_zero_pressure [where g = "gauge1\<lparr>temperatureProperty := None\<rparr>" and dt = 1
      and nextDouble = "1 / 2" and nextBoolean = True]
  have b: "step 1 (1 / 2) True (gauge1\<lparr>temperatureProperty := None\<rparr>)
       = Inr (gauge1\<lparr>temperatureProperty := None, pressureKilopascalsProperty := 0, dtAccumulator := 0\<rparr>)"
    using k by simp
  show ?thesis using h a b by blast
qed

section \<open>Container\<close>

text \<open>
  Claim C9. The invariant of the container: after the constructor and after every
  sequence of operations (\<open>reset()\<close>, setting the width) that the validation of the
  Properties accepts, the width lies within the configured range, which does not change,
  and the volume, width times height (8750) times depth (4000), is positive. An
  operation that would break the invariant is refused by the validation, and \<open>reset()\<close>
  is never refused.
\<close>

theorem container_invariant:
  assumes "newBaseContainer loc wRange doesWork = Inr c" and "operations xs c = Inr c'"
  shows "widthRange c' = wRange
       \<and> rangeMin wRange \<le> widthProperty c' \<and> widthProperty c' \<le> rangeMax wRange
       \<and> 0 < volumeProperty c'
       \<and> volumeProperty c' = widthProperty c' * 8750 * 4000
       \<and> (\<exists>c''. reset c' = Inr c'')"
proof -
  let ?c0 = "\<lparr>containerLocation = loc, widthRange = wRange, widthProperty = defaultValue wRange,
        leftWallVelocity = \<lparr>getX = 0, getY = 0\<rparr>, leftWallDoesWork = doesWork\<rparr>"
  from assms(1) have "setWidth (defaultValue wRange) ?c0 = Inr c"
    by (simp only: newBaseContainer_def)
  from setWidth_result [OF this]
  have eq: "c = ?c0\<lparr>widthProperty := defaultValue wRange\<rparr>"
    and rng: "contains (widthRange ?c0) (defaultValue wRange)" and vol: "0 < volumeProperty c"
    by blast+
  have c: "contains (widthRange c) (widthProperty c) \<and> 0 < volumeProperty c"
    "widthRange c = wRange" "widthProperty c = defaultValue wRange"
    using rng vol by (simp_all add: eq)
  from operations_invariant [OF assms(2) c(1)]
  have c': "contains (widthRange c') (widthProperty c')" "0 < volumeProperty c'"
    "widthRange c' = widthRange c"
    by blast+
  have "contains (widthRange c') (defaultValue (widthRange c'))" "0 < defaultValue (widthRange c')"
    using c c'(3) by (simp_all add: volumeProperty_def height_def depth_def zero_less_mult_iff)
  then have "reset c' = Inr (c'\<lparr>widthProperty := defaultValue (widthRange c')\<rparr>)"
    unfolding reset_def by (rule setWidth_succeeds)
  then show ?thesis
    using c c' by (simp add: contains_def volumeProperty_def height_def depth_def)
qed

theorem container_invariant_witness:
  "newBaseContainer \<lparr>getX = 0, getY = 0\<rparr>
       \<lparr>rangeMin = 5000, rangeMax = 15000, defaultValue = 10000\<rparr> False = Inr container0
   \<and> operations [SetWidth 7000, Reset, SetWidth 15000] container0
       = Inr (container0\<lparr>widthProperty := 15000\<rparr>)
   \<and> operations [SetWidth 4000] container0 = Inl InvalidValue
   \<and> (5000::real) \<le> widthProperty (container0\<lparr>widthProperty := 15000\<rparr>)
   \<and> widthProperty (container0\<lparr>widthProperty := 15000\<rparr>) \<le> (15000::real)
   \<and> 0 < volumeProperty (container0\<lparr>widthProperty := 15000\<rparr>)"
proof -
  have h: "newBaseContainer \<lparr>getX = 0, getY = 0\<rparr>
       \<lparr>rangeMin = 5000, rangeMax = 15000, defaultValue = 10000\<rparr> False = Inr container0"
    "operations [SetWidth 7000, Reset, SetWidth 15000] container0
       = Inr (container0\<lparr>widthProperty := 15000\<rparr>)"
    "operations [SetWidth 4000] container0 = Inl InvalidValue"
    by (simp_all add: newBaseContainer_def container0_def setWidth_def contains_def Let_def
        volumeProperty_def height_def depth_def reset_def)
  from container_invariant [OF h(1,2)] show ?thesis using h by simp
qed

section \<open>Diffusion: the divider\<close>

text \<open>
  Claim C6. In the diffusion variant, for a detector built by its constructor on two
  species with no particle in common. While the divider is present,
  \<open>updateParticleContainerCollisions\<close> resolves the collisions of the first species
  against the bounds of the left side and those of the second species against the bounds
  of the right side, each side as a container of its own with a left wall at rest;
  afterwards every particle that fits into its side lies within it, so that no particle
  of the first species reaches beyond the divider to the right and none of the second
  species to the left. Without the divider the collisions of both species are resolved
  against the bounds of the whole container, with the velocity of its left wall, and every
  particle lies within them afterwards.
\<close>

theorem diffusion_container_collisions:
  assumes d: "d = newDiffusionCollisionDetector c species1 species2"
    and disj: "set species1 \<inter> set species2 = {}"
  shows "(hasDividerProperty c \<longrightarrow>
            updateParticleContainerCollisions d h =
              Inr (doParticleContainerCollisions species2 (rightBounds c) \<lparr>getX = 0, getY = 0\<rparr>
                    (doParticleContainerCollisions species1 (leftBounds c) \<lparr>getX = 0, getY = 0\<rparr> (h, 0)))
          \<and> ((\<forall>r \<in> set species1. fitsInto (leftBounds c) (h r))
               \<and> (\<forall>r \<in> set species2. fitsInto (rightBounds c) (h r)) \<longrightarrow>
              (\<exists>h' n. updateParticleContainerCollisions d h = Inr (h', n)
                 \<and> (\<forall>r \<in> set species1. boundsContainParticle (leftBounds c) (h' r)
                                         \<and> right (h' r) \<le> dividerX c)
                 \<and> (\<forall>r \<in> set species2. boundsContainParticle (rightBounds c) (h' r)
                                         \<and> dividerX c \<le> left (h' r)))))
       \<and> (\<not> hasDividerProperty c \<longrightarrow>
            updateParticleContainerCollisions d h =
              Inr (doParticleContainerCollisions species2 (boundsProperty c) (leftWallVelocity c)
                    (doParticleContainerCollisions species1 (boundsProperty c) (leftWallVelocity c) (h, 0)))
          \<and> ((\<forall>r \<in> set species1. fitsInto (boundsProperty c) (h r))
               \<and> (\<forall>r \<in> set species2. fitsInto (boundsProperty c) (h r)) \<longrightarrow>
              (\<exists>h' n. updateParticleContainerCollisions d h = Inr (h', n)
                 \<and> (\<forall>r \<in> set species1. boundsContainParticle (boundsProperty c) (h' r))
                 \<and> (\<forall>r \<in> set species2. boundsContainParticle (boundsProperty c) (h' r)))))"
proof (intro conjI impI)
  assume div: "hasDividerProperty c"
  show upd: "updateParticleContainerCollisions d h =
              Inr (doParticleContainerCollisions species2 (rightBounds c) \<lparr>getX = 0, getY = 0\<rparr>
                    (doParticleContainerCollisions species1 (leftBounds c) \<lparr>getX = 0, getY = 0\<rparr> (h, 0)))"
    using div by (simp add: d updateParticleContainerCollisions_def newDiffusionCollisionDetector_def
        element_def Let_def)
  assume fits: "(\<forall>r \<in> set species1. fitsInto (leftBounds c) (h r))
               \<and> (\<forall>r \<in> set species2. fitsInto (rightBounds c) (h r))"
  let ?s = "doParticleContainerCollisions species2 (rightBounds c) \<lparr>getX = 0, getY = 0\<rparr>
              (doParticleContainerCollisions species1 (leftBounds c) \<lparr>getX = 0, getY = 0\<rparr> (h, 0))"
  from two_passes [OF disj, of "leftBounds c" h "rightBounds c" "\<lparr>getX = 0, getY = 0\<rparr>"] fits
  have inside: "\<forall>r \<in> set species1. boundsContainParticle (leftBounds c) (fst ?s r)"
    "\<forall>r \<in> set species2. boundsContainParticle (rightBounds c) (fst ?s r)"
    by blast+
  have l: "boundsContainParticle (leftBounds c) p \<Longrightarrow> right p \<le> dividerX c" for p
    by (simp add: boundsContainParticle_def leftBounds_def)
  have r: "boundsContainParticle (rightBounds c) p \<Longrightarrow> dividerX c \<le> left p" for p
    by (simp add: boundsContainParticle_def rightBounds_def)
  have "updateParticleContainerCollisions d h = Inr (fst ?s, snd ?s)" using upd by simp
  then show "\<exists>h' n. updateParticleContainerCollisions d h = Inr (h', n)
                 \<and> (\<forall>r \<in> set species1. boundsContainParticle (leftBounds c) (h' r)
                                         \<and> right (h' r) \<le> dividerX c)
                 \<and> (\<forall>r \<in> set species2. boundsContainParticle (rightBounds c) (h' r)
                                         \<and> dividerX c \<le> left (h' r))"
    using inside l r by blast
next
  assume nodiv: "\<not> hasDividerProperty c"
  show upd: "updateParticleContainerCollisions d h =
              Inr (doParticleContainerCollisions species2 (boundsProperty c) (leftWallVelocity c)
                    (doParticleContainerCollisions species1 (boundsProperty c) (leftWallVelocity c) (h, 0)))"
    using nodiv by (simp add: d updateParticleContainerCollisions_def newDiffusionCollisionDetector_def)
  assume fits: "(\<forall>r \<in> set species1. fitsInto (boundsProperty c) (h r))
               \<and> (\<forall>r \<in> set species2. fitsInto (boundsProperty c) (h r))"
  let ?s = "doParticleContainerCollisions species2 (boundsProperty c) (leftWallVelocity c)
              (doParticleContainerCollisions species1 (boundsProperty c) (leftWallVelocity c) (h, 0))"
  from two_passes [OF disj, of "boundsProperty c" h "boundsProperty c" "leftWallVelocity c"] fits
  have inside: "\<forall>r \<in> set species1. boundsContainParticle (boundsProperty c) (fst ?s r)"
    "\<forall>r \<in> set species2. boundsContainParticle (boundsProperty c) (fst ?s r)"
    by blast+
  have "updateParticleContainerCollisions d h = Inr (fst ?s, snd ?s)" using upd by simp
  then show "\<exists>h' n. updateParticleContainerCollisions d h = Inr (h', n)
                 \<and> (\<forall>r \<in> set species1. boundsContainParticle (boundsProperty c) (h' r))
                 \<and> (\<forall>r \<in> set species2. boundsContainParticle (boundsProperty c) (h' r))"
    using inside by blast
qed


theorem diffusion_container_collisions_witness:
  "set [0::nat] \<inter> set [1] = {} \<and> hasDividerProperty dcontainer0
   \<and> fitsInto (leftBounds dcontainer0) (heap0 0) \<and> fitsInto (rightBounds dcontainer0) (heap0 1)
   \<and> right (heap0 0) > dividerX dcontainer0 \<and> left (heap0 1) < dividerX dcontainer0
   \<and> (\<exists>h' n. updateParticleContainerCollisions
                 (newDiffusionCollisionDetector dcontainer0 [0] [1]) heap0 = Inr (h', n)
          \<and> right (h' 0) \<le> dividerX dcontainer0 \<and> dividerX dcontainer0 \<le> left (h' 1))"
proof -
  have disj: "set [0::nat] \<inter> set [1] = {}" by simp
  have div: "hasDividerProperty dcontainer0" by (simp add: dcontainer0_def)
  have fits: "fitsInto (leftBounds dcontainer0) (heap0 0)" "fitsInto (rightBounds dcontainer0) (heap0 1)"
    by (simp_all add: fitsInto_def leftBounds_def rightBounds_def boundsProperty_def dcontainer0_def
        heap0_def setVelocityXY_def setLocationXY_def LightParticle_def newParticle_def
        LIGHT_PARTICLES_RADIUS_def height_def)
  have crossed: "right (heap0 0) > dividerX dcontainer0" "left (heap0 1) < dividerX dcontainer0"
    by (simp_all add: right_def left_def dcontainer0_def
        heap0_def setVelocityXY_def setLocationXY_def LightParticle_def newParticle_def
        LIGHT_PARTICLES_RADIUS_def)
  have all: "(\<forall>r \<in> set [0::nat]. fitsInto (leftBounds dcontainer0) (heap0 r))
               \<and> (\<forall>r \<in> set [1::nat]. fitsInto (rightBounds dcontainer0) (heap0 r))"
    using fits by simp
  from diffusion_container_collisions [OF refl disj, of dcontainer0 heap0] div all
  obtain h' n where res: "updateParticleContainerCollisions
                 (newDiffusionCollisionDetector dcontainer0 [0] [1]) heap0 = Inr (h', n)"
    "\<forall>r \<in> set [0::nat]. boundsContainParticle (leftBounds dcontainer0) (h' r)
                                         \<and> right (h' r) \<le> dividerX dcontainer0"
    "\<forall>r \<in> set [1::nat]. boundsContainParticle (rightBounds dcontainer0) (h' r)
                                         \<and> dividerX dcontainer0 \<le> left (h' r)"
    by blast
  from res(2,3) have "right (h' 0) \<le> dividerX dcontainer0" "dividerX dcontainer0 \<le> left (h' 1)"
    by simp_all
  with disj div fits crossed res(1) show ?thesis by blast
qed

end
